theory Spec2Isabelle
  imports Main "HOL-Library.Product_Lexorder" "HOL-Library.Multiset"
begin

section \<open>The persistent store\<close>

text \<open>
  The backend keeps three tables (\<^verbatim>\<open>database/schema.sql\<close> and the
  \<^verbatim>\<open>user_roles\<close> migration): \<^verbatim>\<open>users\<close>, \<^verbatim>\<open>user_roles\<close> and
  \<^verbatim>\<open>slots\<close>. A table is the list of its rows; a query is a \<open>filter\<close>, and
  \<^verbatim>\<open>.single()\<close> yields a row only when exactly one row matches. The store
  rejects a write that breaks a PRIMARY KEY, UNIQUE or REFERENCES constraint of the schema;
  such a write is \<open>None\<close> and the handler's \<^verbatim>\<open>throw\<close> turns it into HTTP 500.
  Faults of the store itself (network, outage) are outside the model, and so are the
  \<^verbatim>\<open>created_at\<close>/\<^verbatim>\<open>updated_at\<close> columns and the triggers that maintain them. The
  two role triggers of the migration repeat the writes that the handlers perform
  themselves and are not modelled.

  Identifiers are the UUID texts of the schema. A \<^verbatim>\<open>DATE\<close> is the number of its
  day, a \<^verbatim>\<open>TIME\<close> the second of the day, and a JavaScript \<^verbatim>\<open>Date\<close> the number
  of milliseconds since the epoch, so a malformed date or time cannot be written down.

  A row holds its id in the spelling PostgreSQL prints: 32 lowercase hexadecimal digits in
  groups of 8, 4, 4, 4 and 12. On input PostgreSQL reads other spellings as the same uuid.
  The users router compares the id of the request both as a text (its own guard) and as a
  uuid (its queries), so there the store's reading of the text is modelled. The slots
  router only hands the slot id to the store; there a request is taken to name the id in
  the printed spelling, and a text that spells no row's id matches no row.
\<close>

type_synonym uuid = string
type_synonym instant = int
type_synonym day = int
type_synonym tod = nat

datatype slot_status = Available | Booked | Cancelled | Completed

record user_row =
  u_id :: uuid
  u_email :: string
  u_name :: string
  u_picture :: "string option"
  u_google_id :: "string option"
  u_role :: string
  u_last_login :: instant

record role_row =
  r_email :: string
  r_role :: string
  r_updated_at :: instant

record slot_row =
  s_id :: uuid
  s_faculty_id :: uuid
  s_scholar_id :: "uuid option"
  s_date :: day
  s_start_time :: tod
  s_end_time :: tod
  s_status :: slot_status
  s_notes :: "string option"
  s_meeting_link :: "string option"

record store =
  users :: "user_row list"
  user_roles :: "role_row list"
  slots :: "slot_row list"

text \<open>\<^verbatim>\<open>.single()\<close>: the row when exactly one matches, an error otherwise.\<close>

fun single :: "'a list \<Rightarrow> 'a option" where
  "single [x] = Some x"
| "single _ = None"

definition user_exists :: "uuid \<Rightarrow> store \<Rightarrow> bool" where
  "user_exists uid st = (uid \<in> set (map u_id (users st)))"

text \<open>The to-one embedding \<^verbatim>\<open>users!slots_faculty_id_fkey(...)\<close>: the referenced row
  or \<^verbatim>\<open>null\<close>.\<close>

definition lookup_user :: "uuid \<Rightarrow> store \<Rightarrow> user_row option" where
  "lookup_user uid st = find (\<lambda>u. u_id u = uid) (users st)"

subsection \<open>Reading a uuid\<close>

text \<open>
  PostgreSQL's input function for the \<^verbatim>\<open>UUID\<close> type (\<^verbatim>\<open>string_to_uuid\<close>): an
  optional opening brace, then 16 bytes of two hexadecimal digits each, in either case,
  with an optional hyphen after the bytes 1, 3, 5, ..., 13 (counted from 0), then the
  closing brace if there was an opening one, and nothing more. Any other text is a syntax
  error. \<open>read_bytes\<close> returns the digits in lower case and the rest of the text.
\<close>

definition isxdigit :: "char \<Rightarrow> bool" where
  "isxdigit c = (c \<in> set ''0123456789abcdefABCDEF'')"

definition lower_hex :: "char \<Rightarrow> char" where
  "lower_hex c =
     (if c = CHR ''A'' then CHR ''a'' else if c = CHR ''B'' then CHR ''b''
      else if c = CHR ''C'' then CHR ''c'' else if c = CHR ''D'' then CHR ''d''
      else if c = CHR ''E'' then CHR ''e'' else if c = CHR ''F'' then CHR ''f'' else c)"

function read_bytes :: "nat \<Rightarrow> string \<Rightarrow> (string \<times> string) option" where
  "read_bytes i src =
     (if i < 16
      then (case src of
              a # b # rest \<Rightarrow>
                if isxdigit a \<and> isxdigit b
                then (case read_bytes (Suc i)
                             (if odd i \<and> i < 15 \<and> take 1 rest = ''-'' then drop 1 rest
                              else rest) of
                        None \<Rightarrow> None
                      | Some (digits, r) \<Rightarrow> Some (lower_hex a # lower_hex b # digits, r))
                else None
            | _ \<Rightarrow> None)
      else Some ([], src))"
  by pat_completeness auto
termination
  by (relation "measure (\<lambda>(i, src). 16 - i)") auto

declare read_bytes.simps [simp del]

definition uuid_in :: "string \<Rightarrow> string option" where
  "uuid_in source =
     (let braces = (take 1 source = ''{'');
          src = (if braces then drop 1 source else source)
      in case read_bytes 0 src of
           None \<Rightarrow> None
         | Some (digits, r) \<Rightarrow>
             if r = (if braces then ''}'' else []) then Some digits else None)"

text \<open>The output function prints the 32 digits in the standard form.\<close>

definition uuid_out :: "string \<Rightarrow> uuid" where
  "uuid_out digits =
     take 8 digits @ ''-'' @ take 4 (drop 8 digits) @ ''-'' @ take 4 (drop 12 digits) @ ''-''
       @ take 4 (drop 16 digits) @ ''-'' @ drop 20 digits"

text \<open>The id a text names, as the rows hold it; \<open>None\<close> when the store refuses the
  text.\<close>

definition uuid_canon :: "string \<Rightarrow> uuid option" where
  "uuid_canon source = map_option uuid_out (uuid_in source)"

subsection \<open>Writes\<close>

text \<open>\<^verbatim>\<open>user_roles.upsert({email, role, updated_at}, {onConflict: 'email'})\<close>.\<close>

definition upsert_role :: "string \<Rightarrow> string \<Rightarrow> instant \<Rightarrow> store \<Rightarrow> store" where
  "upsert_role email role now st =
     (if email \<in> set (map r_email (user_roles st))
      then st\<lparr>user_roles :=
             map (\<lambda>r. if r_email r = email then r\<lparr>r_role := role, r_updated_at := now\<rparr> else r)
               (user_roles st)\<rparr>
      else st\<lparr>user_roles :=
             user_roles st @ [\<lparr>r_email = email, r_role = role, r_updated_at = now\<rparr>]\<rparr>)"

text \<open>\<^verbatim>\<open>user_roles.insert([{email, role}])\<close>; \<^verbatim>\<open>email\<close> is UNIQUE.\<close>

definition insert_role :: "string \<Rightarrow> string \<Rightarrow> instant \<Rightarrow> store \<Rightarrow> store option" where
  "insert_role email role now st =
     (if email \<in> set (map r_email (user_roles st)) then None
      else Some (st\<lparr>user_roles :=
             user_roles st @ [\<lparr>r_email = email, r_role = role, r_updated_at = now\<rparr>]\<rparr>))"

text \<open>\<^verbatim>\<open>users.update({ role }).eq('id', userId)\<close> and \<^verbatim>\<open>.eq('email', email)\<close>.\<close>

definition update_role_by_id :: "uuid \<Rightarrow> string \<Rightarrow> store \<Rightarrow> store" where
  "update_role_by_id userId role st =
     st\<lparr>users := map (\<lambda>u. if u_id u = userId then u\<lparr>u_role := role\<rparr> else u) (users st)\<rparr>"

definition update_role_by_email :: "string \<Rightarrow> string \<Rightarrow> store \<Rightarrow> store" where
  "update_role_by_email email role st =
     st\<lparr>users := map (\<lambda>u. if u_email u = email then u\<lparr>u_role := role\<rparr> else u) (users st)\<rparr>"

text \<open>\<^verbatim>\<open>users.insert([...])\<close>: \<^verbatim>\<open>id\<close> is the primary key, \<^verbatim>\<open>email\<close> and
  \<^verbatim>\<open>google_id\<close> are UNIQUE (a NULL \<^verbatim>\<open>google_id\<close> never conflicts).\<close>

definition google_id_taken :: "string option \<Rightarrow> user_row list \<Rightarrow> bool" where
  "google_id_taken g us =
     (case g of None \<Rightarrow> False | Some v \<Rightarrow> Some v \<in> set (map u_google_id us))"

definition insert_user :: "user_row \<Rightarrow> store \<Rightarrow> store option" where
  "insert_user u st =
     (if u_id u \<in> set (map u_id (users st)) \<or> u_email u \<in> set (map u_email (users st))
         \<or> google_id_taken (u_google_id u) (users st)
      then None
      else Some (st\<lparr>users := users st @ [u]\<rparr>))"

text \<open>The login's \<^verbatim>\<open>users.update({name, picture, google_id, role, last_login}).eq('id', id)\<close>.
  A payload without a picture leaves the key \<^verbatim>\<open>undefined\<close>; it is dropped from the
  update and the stored picture stays.\<close>

definition update_user_login ::
  "uuid \<Rightarrow> string \<Rightarrow> string option \<Rightarrow> string option \<Rightarrow> string \<Rightarrow> instant \<Rightarrow> store \<Rightarrow> store option" where
  "update_user_login uid name picture gid role now st =
     (if uid \<in> set (map u_id (users st))
         \<and> google_id_taken gid (filter (\<lambda>u. u_id u \<noteq> uid) (users st))
      then None
      else Some (st\<lparr>users :=
             map (\<lambda>u. if u_id u = uid
                       then u\<lparr>u_name := name,
                              u_picture := (case picture of None \<Rightarrow> u_picture u
                                            | Some pic \<Rightarrow> Some pic),
                              u_google_id := gid, u_role := role, u_last_login := now\<rparr>
                       else u) (users st)\<rparr>))"

section \<open>Errors and the authorization gate\<close>

datatype error =
    TokenRequired
  | MissingField
  | InvalidRole
  | InvalidRange
  | Forbidden
  | UserNotFound
  | SlotUnavailable
  | SlotNotFound
  | SlotConflict
  | InternalError

fun http_status :: "error \<Rightarrow> nat" where
  "http_status TokenRequired = 400"
| "http_status MissingField = 400"
| "http_status InvalidRole = 400"
| "http_status InvalidRange = 400"
| "http_status Forbidden = 403"
| "http_status UserNotFound = 404"
| "http_status SlotUnavailable = 404"
| "http_status SlotNotFound = 404"
| "http_status SlotConflict = 409"
| "http_status InternalError = 500"

text \<open>\<^verbatim>\<open>req.user\<close>, as the authentication middleware leaves it.\<close>

record identity =
  c_id :: uuid
  c_email :: string
  c_name :: string
  c_role :: string

text \<open>
  Modelled from the spec: \<^verbatim>\<open>requireRole\<close> of \<^verbatim>\<open>middleware/auth.js\<close>, which is
  not among the sources. The gate passes if the identity's role is in the required set
  and fails with \<open>Forbidden\<close> otherwise.
\<close>

definition requireRole :: "string list \<Rightarrow> identity \<Rightarrow> bool" where
  "requireRole roles caller = (c_role caller \<in> set roles)"

section \<open>Role management (the users router)\<close>

text \<open>The three routers modelled here (users, auth, slots) are the three modules of
  \<^verbatim>\<open>backend/src/routes/users.js\<close>.\<close>

definition valid_roles :: "string list" where
  "valid_roles = [''scholar'', ''faculty'', ''admin'']"

text \<open>\<^verbatim>\<open>PATCH /:userId/role\<close>. A missing \<^verbatim>\<open>role\<close> in the body is the empty text.
  The guard \<^verbatim>\<open>userId === req.user.id\<close> compares two texts. The queries
  \<^verbatim>\<open>.eq('id', userId)\<close> compare uuids: the store reads the text \<^verbatim>\<open>userId\<close>, and
  a text it refuses is the query's error, answered 404 like a missing row.\<close>

definition patch_role ::
  "identity \<Rightarrow> string \<Rightarrow> string \<Rightarrow> instant \<Rightarrow> store \<Rightarrow> (error + user_row) \<times> store" where
  "patch_role caller userId role now st =
     (if role \<notin> set valid_roles then (Inl InvalidRole, st)
      else if userId = c_id caller then (Inl Forbidden, st)
      else case uuid_canon userId of
          None \<Rightarrow> (Inl UserNotFound, st)
        | Some uid \<Rightarrow>
            (case single (filter (\<lambda>u. u_id u = uid) (users st)) of
               None \<Rightarrow> (Inl UserNotFound, st)
             | Some targetUser \<Rightarrow>
                 let st1 = upsert_role (u_email targetUser) role now st;
                     st2 = update_role_by_id uid role st1
                 in (case single (filter (\<lambda>u. u_id u = uid) (users st2)) of
                       None \<Rightarrow> (Inl InternalError, st2)
                     | Some user \<Rightarrow> (Inr user, st2))))"

definition patch_role_route ::
  "identity \<Rightarrow> string \<Rightarrow> string \<Rightarrow> instant \<Rightarrow> store \<Rightarrow> (error + user_row) \<times> store" where
  "patch_role_route caller userId role now st =
     (if requireRole [''admin''] caller then patch_role caller userId role now st
      else (Inl Forbidden, st))"

text \<open>\<^verbatim>\<open>POST /roles/email\<close>. The answer carries the upserted row and whether a user
  existed (the \<^verbatim>\<open>note\<close>).\<close>

record role_assigned =
  ra_email :: string
  ra_role :: string
  ra_user_exists :: bool

definition set_role_by_email ::
  "identity \<Rightarrow> string \<Rightarrow> string \<Rightarrow> instant \<Rightarrow> store \<Rightarrow> (error + role_assigned) \<times> store" where
  "set_role_by_email caller email role now st =
     (if email = [] \<or> role = [] then (Inl MissingField, st)
      else if role \<notin> set valid_roles then (Inl InvalidRole, st)
      else if email = c_email caller then (Inl Forbidden, st)
      else
        let st1 = upsert_role email role now st in
        (case single (filter (\<lambda>r. r_email r = email) (user_roles st1)) of
           None \<Rightarrow> (Inl InternalError, st1)
         | Some roleData \<Rightarrow>
             (case single (filter (\<lambda>u. u_email u = email) (users st1)) of
                None \<Rightarrow>
                  (Inr \<lparr>ra_email = r_email roleData, ra_role = r_role roleData,
                        ra_user_exists = False\<rparr>, st1)
              | Some existingUser \<Rightarrow>
                  (Inr \<lparr>ra_email = r_email roleData, ra_role = r_role roleData,
                        ra_user_exists = True\<rparr>,
                   update_role_by_email email role st1))))"

definition set_role_by_email_route ::
  "identity \<Rightarrow> string \<Rightarrow> string \<Rightarrow> instant \<Rightarrow> store \<Rightarrow> (error + role_assigned) \<times> store" where
  "set_role_by_email_route caller email role now st =
     (if requireRole [''admin''] caller then set_role_by_email caller email role now st
      else (Inl Forbidden, st))"

section \<open>Login (the auth router, POST /google)\<close>

text \<open>Verifying the Google token is an external collaborator: the request arrives with
  no token, a token the verifier rejects, or a verified payload.\<close>

record payload =
  p_email :: string
  p_name :: string
  p_picture :: "string option"
  p_sub :: string

datatype credential = NoToken | BadToken | Verified payload

text \<open>The primary key of a new row is drawn by the store (\<^verbatim>\<open>uuid_generate_v4()\<close>);
  the draw is the argument \<open>new_id\<close>.\<close>

definition google_login ::
  "credential \<Rightarrow> uuid \<Rightarrow> instant \<Rightarrow> store \<Rightarrow> (error + user_row) \<times> store" where
  "google_login cred new_id now st =
     (case cred of
        NoToken \<Rightarrow> (Inl TokenRequired, st)
      | BadToken \<Rightarrow> (Inl InternalError, st)
      | Verified p \<Rightarrow>
          let roleData = single (filter (\<lambda>r. r_email r = p_email p) (user_roles st));
              userRole = (case roleData of Some rd \<Rightarrow> r_role rd | None \<Rightarrow> ''scholar'');
              st1 = (case roleData of
                       Some rd \<Rightarrow> st
                     | None \<Rightarrow>
                         (case insert_role (p_email p) ''scholar'' now st of
                            Some s \<Rightarrow> s | None \<Rightarrow> st))
          in (case single (filter (\<lambda>u. u_email u = p_email p) (users st1)) of
                None \<Rightarrow>
                  let newUser = \<lparr>u_id = new_id, u_email = p_email p, u_name = p_name p,
                                 u_picture = p_picture p, u_google_id = Some (p_sub p),
                                 u_role = userRole, u_last_login = now\<rparr>
                  in (case insert_user newUser st1 of
                        None \<Rightarrow> (Inl InternalError, st1)
                      | Some st2 \<Rightarrow> (Inr newUser, st2))
              | Some user \<Rightarrow>
                  (case update_user_login (u_id user) (p_name p) (p_picture p)
                          (Some (p_sub p)) userRole now st1 of
                     None \<Rightarrow> (Inl InternalError, st1)
                   | Some st2 \<Rightarrow>
                       (case single (filter (\<lambda>u. u_id u = u_id user) (users st2)) of
                          None \<Rightarrow> (Inl InternalError, st2)
                        | Some updatedUser \<Rightarrow> (Inr updatedUser, st2)))))"

section \<open>Slots (the slots router)\<close>

subsection \<open>Creation\<close>

text \<open>The body after \<^verbatim>\<open>isISO8601().toDate()\<close>: three \<^verbatim>\<open>Date\<close> values.\<close>

record slot_request =
  q_start_time :: instant
  q_end_time :: instant
  q_date :: instant

text \<open>\<^verbatim>\<open>toTimeString().split(' ')[0]\<close> is the time of day on the server's clock, whose
  offset from UTC (in milliseconds, at a given instant) is the parameter \<open>tz\<close>;
  \<^verbatim>\<open>toISOString().split('T')[0]\<close> is the UTC day.\<close>

definition timeOnly :: "(instant \<Rightarrow> int) \<Rightarrow> instant \<Rightarrow> tod" where
  "timeOnly tz t = nat (((t + tz t) div 1000) mod 86400)"

definition dateOnly :: "instant \<Rightarrow> day" where
  "dateOnly t = t div 86400000"

text \<open>The \<^verbatim>\<open>.or(...)\<close> filter of the overlap query, for a new slot from \<open>S\<close> to
  \<open>E\<close> and an existing row \<open>e\<close>.\<close>

definition overlap_filter :: "tod \<Rightarrow> tod \<Rightarrow> slot_row \<Rightarrow> bool" where
  "overlap_filter S E e =
     ((s_start_time e \<le> S \<and> s_end_time e > S)
      \<or> (s_start_time e < E \<and> s_end_time e \<ge> E)
      \<or> (s_start_time e \<ge> S \<and> s_end_time e \<le> E))"

definition insert_slot :: "slot_row \<Rightarrow> store \<Rightarrow> store option" where
  "insert_slot s st =
     (if s_id s \<in> set (map s_id (slots st)) \<or> \<not> user_exists (s_faculty_id s) st
      then None
      else Some (st\<lparr>slots := slots st @ [s]\<rparr>))"

definition create_slot ::
  "identity \<Rightarrow> (instant \<Rightarrow> int) \<Rightarrow> uuid \<Rightarrow> slot_request \<Rightarrow> store \<Rightarrow> (error + slot_row) \<times> store" where
  "create_slot caller tz new_id req st =
     (let faculty_id = c_id caller;
          startTimeOnly = timeOnly tz (q_start_time req);
          endTimeOnly = timeOnly tz (q_end_time req);
          dateOnly = dateOnly (q_date req)
      in if q_end_time req \<le> q_start_time req then (Inl InvalidRange, st)
         else
           let overlapping =
                 filter (\<lambda>e. s_faculty_id e = faculty_id \<and> s_date e = dateOnly
                              \<and> overlap_filter startTimeOnly endTimeOnly e) (slots st)
           in if length overlapping > 0 then (Inl SlotConflict, st)
              else
                let slot = \<lparr>s_id = new_id, s_faculty_id = faculty_id, s_scholar_id = None,
                            s_date = dateOnly, s_start_time = startTimeOnly,
                            s_end_time = endTimeOnly, s_status = Available,
                            s_notes = None, s_meeting_link = None\<rparr>
                in (case insert_slot slot st of
                      None \<Rightarrow> (Inl InternalError, st)
                    | Some st1 \<Rightarrow> (Inr slot, st1)))"

definition create_slot_route ::
  "identity \<Rightarrow> (instant \<Rightarrow> int) \<Rightarrow> uuid \<Rightarrow> slot_request \<Rightarrow> store \<Rightarrow> (error + slot_row) \<times> store" where
  "create_slot_route caller tz new_id req st =
     (if requireRole [''faculty'', ''admin''] caller then create_slot caller tz new_id req st
      else (Inl Forbidden, st))"

subsection \<open>Listing the available slots\<close>

text \<open>\<^verbatim>\<open>GET /available\<close>. A query parameter is absent or a text; an empty text is
  falsy and adds no filter. The \<^verbatim>\<open>date\<close> parameter is read as the day it names. Rows
  that agree on date and start time keep the table's order.\<close>

definition truthy :: "string option \<Rightarrow> bool" where
  "truthy q = (case q of None \<Rightarrow> False | Some v \<Rightarrow> v \<noteq> [])"

definition list_available ::
  "instant \<Rightarrow> string option \<Rightarrow> day option \<Rightarrow> store \<Rightarrow> (slot_row \<times> user_row option) list" where
  "list_available now faculty_id date st =
     (let q0 = filter (\<lambda>s. s_status s = Available \<and> s_date s \<ge> dateOnly now) (slots st);
          q1 = (if truthy faculty_id then filter (\<lambda>s. Some (s_faculty_id s) = faculty_id) q0
                else q0);
          q2 = (case date of Some d \<Rightarrow> filter (\<lambda>s. s_date s = d) q1 | None \<Rightarrow> q1);
          q3 = sort_key (\<lambda>s. (s_date s, s_start_time s)) q2
      in map (\<lambda>s. (s, lookup_user (s_faculty_id s) st)) q3)"

subsection \<open>The meeting link\<close>

text \<open>\<^verbatim>\<open>Math.floor(Math.random() * chars.length)\<close> is an injected capability: \<open>rnd k\<close>
  is the value of the \<open>k\<close>-th draw. Reading \<^verbatim>\<open>chars[i]\<close> beyond the text gives
  \<^verbatim>\<open>undefined\<close>, which \<^verbatim>\<open>+=\<close> appends as the text \<^verbatim>\<open>undefined\<close>.\<close>

definition chars :: string where
  "chars = ''abcdefghijklmnopqrstuvwxyz''"

definition char_at :: "nat \<Rightarrow> string" where
  "char_at i = (if i < length chars then [chars ! i] else ''undefined'')"

text \<open>The inner loop: \<open>n\<close> more characters, from draw \<open>k\<close> on.\<close>

fun segment_loop :: "(nat \<Rightarrow> nat) \<Rightarrow> nat \<Rightarrow> nat \<Rightarrow> string \<Rightarrow> string" where
  "segment_loop rnd k 0 segment = segment"
| "segment_loop rnd k (Suc n) segment = segment_loop rnd (Suc k) n (segment @ char_at (rnd k))"

definition segment_length :: "nat \<Rightarrow> nat" where
  "segment_length i = (if i = 1 then 4 else 3)"

text \<open>The outer loop, \<^verbatim>\<open>for (let i = 0; i < 3; i++)\<close>, with the draws used so far.\<close>

function segments_loop :: "(nat \<Rightarrow> nat) \<Rightarrow> nat \<Rightarrow> nat \<Rightarrow> string list \<Rightarrow> string list" where
  "segments_loop rnd i k segments =
     (if i < 3
      then segments_loop rnd (Suc i) (k + segment_length i)
             (segments @ [segment_loop rnd k (segment_length i) []])
      else segments)"
  by pat_completeness auto
termination
  by (relation "measure (\<lambda>(rnd, i, k, segments). 3 - i)") auto

fun join :: "string \<Rightarrow> string list \<Rightarrow> string" where
  "join sep [] = []"
| "join sep [x] = x"
| "join sep (x # y # ys) = x @ sep @ join sep (y # ys)"

definition generateFallbackMeetLink :: "(nat \<Rightarrow> nat) \<Rightarrow> string" where
  "generateFallbackMeetLink rnd = ''https://meet.google.com/'' @ join ''-'' (segments_loop rnd 0 0 [])"

text \<open>The answer of the provisioning collaborator \<^verbatim>\<open>createCalendarEventWithMeet\<close> to
  this request: it throws, or returns an event whose \<^verbatim>\<open>meetLink\<close> may be
  \<^verbatim>\<open>undefined\<close>.\<close>

datatype provision_outcome = ProvisionFailed | Provisioned "string option"

text \<open>\<^verbatim>\<open>createRealGoogleMeet\<close>: building the event reads \<^verbatim>\<open>faculty.name\<close> inside
  the \<^verbatim>\<open>try\<close>, so a \<^verbatim>\<open>null\<close> faculty ends in the \<^verbatim>\<open>catch\<close> as well.\<close>

definition createRealGoogleMeet ::
  "provision_outcome \<Rightarrow> (nat \<Rightarrow> nat) \<Rightarrow> user_row option \<Rightarrow> string option" where
  "createRealGoogleMeet outcome rnd faculty =
     (case faculty of
        None \<Rightarrow> Some (generateFallbackMeetLink rnd)
      | Some f \<Rightarrow>
          (case outcome of
             ProvisionFailed \<Rightarrow> Some (generateFallbackMeetLink rnd)
           | Provisioned meetLink \<Rightarrow> meetLink))"

subsection \<open>Booking\<close>

text \<open>\<^verbatim>\<open>POST /:slotId/book\<close> awaits the store three times: the fetch of the available
  slot, the update, and the fetch of the booked slot. Each is a function of its own, so
  that requests can be interleaved at the \<^verbatim>\<open>await\<close>s.\<close>

record book_request =
  b_caller :: identity
  b_slotId :: uuid
  b_notes :: "string option"
  b_outcome :: provision_outcome
  b_rnd :: "nat \<Rightarrow> nat"

record booking =
  bk_slot :: slot_row
  bk_faculty :: user_row
  bk_scholar :: "user_row option"
  bk_meetingLink :: "string option"

definition book_fetch :: "uuid \<Rightarrow> store \<Rightarrow> (slot_row \<times> user_row option) option" where
  "book_fetch slotId st =
     (case single (filter (\<lambda>s. s_id s = slotId \<and> s_status s = Available) (slots st)) of
        None \<Rightarrow> None
      | Some slot \<Rightarrow> Some (slot, lookup_user (s_faculty_id slot) st))"

text \<open>\<^verbatim>\<open>slots.update({status: 'booked', scholar_id, notes: notes || null, meeting_link})
  .eq('id', slotId)\<close>. An \<^verbatim>\<open>undefined\<close> link is dropped from the update;
  \<^verbatim>\<open>scholar_id\<close> REFERENCES \<^verbatim>\<open>users(id)\<close>.\<close>

definition book_update :: "uuid \<Rightarrow> uuid \<Rightarrow> string option \<Rightarrow> string option \<Rightarrow> store \<Rightarrow> store option" where
  "book_update scholar_id slotId notes meetingLink st =
     (if slotId \<in> set (map s_id (slots st)) \<and> \<not> user_exists scholar_id st then None
      else Some (st\<lparr>slots :=
             map (\<lambda>s. if s_id s = slotId
                       then s\<lparr>s_status := Booked, s_scholar_id := Some scholar_id,
                              s_notes := (if truthy notes then notes else None),
                              s_meeting_link :=
                                (case meetingLink of None \<Rightarrow> s_meeting_link s | Some l \<Rightarrow> Some l)\<rparr>
                       else s) (slots st)\<rparr>))"

text \<open>The last fetch and the answer. \<^verbatim>\<open>generateCalendarLink\<close> reads
  \<^verbatim>\<open>faculty.name\<close> outside any \<^verbatim>\<open>try\<close> of its own; the text of the calendar link
  itself is derived data and is left out.\<close>

definition book_refetch :: "identity \<Rightarrow> uuid \<Rightarrow> string option \<Rightarrow> store \<Rightarrow> error + booking" where
  "book_refetch caller slotId meetingLink st =
     (case single (filter (\<lambda>s. s_id s = slotId) (slots st)) of
        None \<Rightarrow> Inl InternalError
      | Some bookedSlot \<Rightarrow>
          (case lookup_user (s_faculty_id bookedSlot) st of
             None \<Rightarrow> Inl InternalError
           | Some faculty \<Rightarrow>
               Inr \<lparr>bk_slot = bookedSlot, bk_faculty = faculty,
                    bk_scholar = (case s_scholar_id bookedSlot of
                                    None \<Rightarrow> None | Some i \<Rightarrow> lookup_user i st),
                    bk_meetingLink = meetingLink\<rparr>))"

definition book :: "book_request \<Rightarrow> store \<Rightarrow> (error + booking) \<times> store" where
  "book r st =
     (case book_fetch (b_slotId r) st of
        None \<Rightarrow> (Inl SlotUnavailable, st)
      | Some (slot, faculty) \<Rightarrow>
          let meetingLink = createRealGoogleMeet (b_outcome r) (b_rnd r) faculty in
          (case book_update (c_id (b_caller r)) (b_slotId r) (b_notes r) meetingLink st of
             None \<Rightarrow> (Inl InternalError, st)
           | Some st1 \<Rightarrow> (book_refetch (b_caller r) (b_slotId r) meetingLink st1, st1)))"

definition book_route :: "book_request \<Rightarrow> store \<Rightarrow> (error + booking) \<times> store" where
  "book_route r st =
     (if requireRole [''scholar''] (b_caller r) then book r st else (Inl Forbidden, st))"

subsection \<open>Interleaved bookings\<close>

text \<open>Node runs a handler without interruption between two \<^verbatim>\<open>await\<close>s. A request in
  flight is at one of these points: before the first fetch, after it (the link resolved),
  after the update, or answered.\<close>

datatype book_pc =
    Start
  | Fetched "string option"
  | Updated "string option"
  | Answered "error + booking"

fun book_step :: "book_request \<Rightarrow> book_pc \<Rightarrow> store \<Rightarrow> book_pc \<times> store" where
  "book_step r Start st =
     (case book_fetch (b_slotId r) st of
        None \<Rightarrow> (Answered (Inl SlotUnavailable), st)
      | Some (slot, faculty) \<Rightarrow>
          (Fetched (createRealGoogleMeet (b_outcome r) (b_rnd r) faculty), st))"
| "book_step r (Fetched meetingLink) st =
     (case book_update (c_id (b_caller r)) (b_slotId r) (b_notes r) meetingLink st of
        None \<Rightarrow> (Answered (Inl InternalError), st)
      | Some st1 \<Rightarrow> (Updated meetingLink, st1))"
| "book_step r (Updated meetingLink) st =
     (Answered (book_refetch (b_caller r) (b_slotId r) meetingLink st), st)"
| "book_step r (Answered a) st = (Answered a, st)"

text \<open>A schedule names, step by step, the request that runs next.\<close>

fun run_schedule ::
  "nat list \<Rightarrow> book_request list \<Rightarrow> book_pc list \<Rightarrow> store \<Rightarrow> book_pc list \<times> store" where
  "run_schedule [] rs pcs st = (pcs, st)"
| "run_schedule (i # sched) rs pcs st =
     (if i < length rs \<and> i < length pcs
      then (case book_step (rs ! i) (pcs ! i) st of
              (pc, st1) \<Rightarrow> run_schedule sched rs (pcs[i := pc]) st1)
      else run_schedule sched rs pcs st)"

fun succeeded :: "book_pc \<Rightarrow> bool" where
  "succeeded (Answered (Inr b)) = True"
| "succeeded _ = False"

subsection \<open>Deletion\<close>

definition delete_slot :: "identity \<Rightarrow> uuid \<Rightarrow> store \<Rightarrow> (error + unit) \<times> store" where
  "delete_slot caller slotId st =
     (case single (filter (\<lambda>s. s_id s = slotId \<and> s_faculty_id s = c_id caller) (slots st)) of
        None \<Rightarrow> (Inl SlotNotFound, st)
      | Some slot \<Rightarrow>
          if s_status slot = Booked then (Inl Forbidden, st)
          else (Inr (), st\<lparr>slots := filter (\<lambda>s. s_id s \<noteq> slotId) (slots st)\<rparr>))"

definition delete_slot_route :: "identity \<Rightarrow> uuid \<Rightarrow> store \<Rightarrow> (error + unit) \<times> store" where
  "delete_slot_route caller slotId st =
     (if requireRole [''faculty'', ''admin''] caller then delete_slot caller slotId st
      else (Inl Forbidden, st))"

section \<open>Sequences of slot requests\<close>

text \<open>The three requests that write the slots table, run one after the other.\<close>

datatype slot_op =
    CreateSlot identity uuid slot_request
  | BookSlot book_request
  | DeleteSlot identity uuid

fun apply_op :: "(instant \<Rightarrow> int) \<Rightarrow> slot_op \<Rightarrow> store \<Rightarrow> store" where
  "apply_op tz (CreateSlot caller new_id req) st = snd (create_slot_route caller tz new_id req st)"
| "apply_op tz (BookSlot r) st = snd (book_route r st)"
| "apply_op tz (DeleteSlot caller slotId) st = snd (delete_slot_route caller slotId st)"

fun run_ops :: "(instant \<Rightarrow> int) \<Rightarrow> slot_op list \<Rightarrow> store \<Rightarrow> store" where
  "run_ops tz [] st = st"
| "run_ops tz (op # ops) st = run_ops tz ops (apply_op tz op st)"

section \<open>Predicates of the properties\<close>

text \<open>The half-open interval of a stored slot, and the property that slots of one faculty
  member on one date do not overlap; with distinct ids it is the invariant of the slots
  table.\<close>

definition interval :: "slot_row \<Rightarrow> nat set" where
  "interval s = {s_start_time s ..< s_end_time s}"

definition slots_disjoint :: "store \<Rightarrow> bool" where
  "slots_disjoint st =
     (\<forall>A\<in>set (slots st). \<forall>B\<in>set (slots st).
        s_id A \<noteq> s_id B \<and> s_faculty_id A = s_faculty_id B \<and> s_date A = s_date B
          \<longrightarrow> interval A \<inter> interval B = {})"

definition slots_inv :: "store \<Rightarrow> bool" where
  "slots_inv st = (distinct (map s_id (slots st)) \<and> slots_disjoint st)"

text \<open>The two role tables agree: every user row carries the role of the role assignment
  for its email, where both exist.\<close>

definition roles_synced :: "store \<Rightarrow> bool" where
  "roles_synced st =
     (\<forall>u\<in>set (users st). \<forall>r\<in>set (user_roles st). u_email u = r_email r \<longrightarrow> u_role u = r_role r)"

text \<open>The shape of a fallback link: lowercase ASCII letters after a fixed prefix.\<close>

definition lowercase_letter :: "char \<Rightarrow> bool" where
  "lowercase_letter c = (97 \<le> (of_char c :: nat) \<and> (of_char c :: nat) \<le> 122)"

definition link_prefix :: string where
  "link_prefix = ''https://meet.google.com/''"

section \<open>Example data\<close>

text \<open>A small store used to instantiate the theorems below: an admin, a faculty member
  and two scholars, with their role assignments.\<close>

definition ex_admin :: identity where
  "ex_admin = \<lparr>c_id = ''u-admin'', c_email = ''root@x.com'', c_name = ''Root'', c_role = ''admin''\<rparr>"

definition ex_faculty :: identity where
  "ex_faculty = \<lparr>c_id = ''u-fac'', c_email = ''fac@x.com'', c_name = ''Fay'', c_role = ''faculty''\<rparr>"

definition ex_scholar :: identity where
  "ex_scholar = \<lparr>c_id = ''u-sch'', c_email = ''sch@x.com'', c_name = ''Sam'', c_role = ''scholar''\<rparr>"

definition ex_scholar2 :: identity where
  "ex_scholar2 = \<lparr>c_id = ''u-sch2'', c_email = ''sch2@x.com'', c_name = ''Sue'', c_role = ''scholar''\<rparr>"

definition ex_users :: "user_row list" where
  "ex_users =
     [\<lparr>u_id = ''u-admin'', u_email = ''root@x.com'', u_name = ''Root'', u_picture = None,
       u_google_id = Some ''g-admin'', u_role = ''admin'', u_last_login = 0\<rparr>,
      \<lparr>u_id = ''u-fac'', u_email = ''fac@x.com'', u_name = ''Fay'', u_picture = None,
       u_google_id = Some ''g-fac'', u_role = ''faculty'', u_last_login = 0\<rparr>,
      \<lparr>u_id = ''u-sch'', u_email = ''sch@x.com'', u_name = ''Sam'', u_picture = None,
       u_google_id = Some ''g-sch'', u_role = ''scholar'', u_last_login = 0\<rparr>,
      \<lparr>u_id = ''u-sch2'', u_email = ''sch2@x.com'', u_name = ''Sue'', u_picture = None,
       u_google_id = Some ''g-sch2'', u_role = ''scholar'', u_last_login = 0\<rparr>]"

definition ex_roles :: "role_row list" where
  "ex_roles =
     [\<lparr>r_email = ''root@x.com'', r_role = ''admin'', r_updated_at = 0\<rparr>,
      \<lparr>r_email = ''fac@x.com'', r_role = ''faculty'', r_updated_at = 0\<rparr>,
      \<lparr>r_email = ''sch@x.com'', r_role = ''scholar'', r_updated_at = 0\<rparr>,
      \<lparr>r_email = ''sch2@x.com'', r_role = ''scholar'', r_updated_at = 0\<rparr>]"

definition ex_store :: store where
  "ex_store = \<lparr>users = ex_users, user_roles = ex_roles, slots = []\<rparr>"

text \<open>The faculty member's slots on 2025-03-01 (day 20148): 09:00 to 10:00 available,
  10:00 to 11:00 booked, 11:00 to 12:00 cancelled.\<close>

definition ex_slot_free :: slot_row where
  "ex_slot_free = \<lparr>s_id = ''s-free'', s_faculty_id = ''u-fac'', s_scholar_id = None,
     s_date = 20148, s_start_time = 32400, s_end_time = 36000, s_status = Available,
     s_notes = None, s_meeting_link = None\<rparr>"

definition ex_slot_booked :: slot_row where
  "ex_slot_booked = \<lparr>s_id = ''s-booked'', s_faculty_id = ''u-fac'', s_scholar_id = Some ''u-sch'',
     s_date = 20148, s_start_time = 36000, s_end_time = 39600, s_status = Booked,
     s_notes = None, s_meeting_link = Some ''https://meet.google.com/abc-defg-hij''\<rparr>"

definition ex_slot_cancelled :: slot_row where
  "ex_slot_cancelled = \<lparr>s_id = ''s-cancelled'', s_faculty_id = ''u-fac'', s_scholar_id = None,
     s_date = 20148, s_start_time = 39600, s_end_time = 43200, s_status = Cancelled,
     s_notes = None, s_meeting_link = None\<rparr>"

definition ex_store_slots :: store where
  "ex_store_slots = \<lparr>users = ex_users, user_roles = ex_roles,
     slots = [ex_slot_free, ex_slot_booked, ex_slot_cancelled]\<rparr>"

text \<open>Booking requests: the second scholar for the booked slot; the first scholar for
  the available slot while provisioning fails; the second scholar for the available slot
  with a provisioned link.\<close>

definition ex_request :: book_request where
  "ex_request = \<lparr>b_caller = ex_scholar2, b_slotId = ''s-booked'', b_notes = None,
      b_outcome = ProvisionFailed, b_rnd = (\<lambda>k. k)\<rparr>"

definition ex_book :: book_request where
  "ex_book = \<lparr>b_caller = ex_scholar, b_slotId = ''s-free'', b_notes = Some ''demo'',
      b_outcome = ProvisionFailed, b_rnd = (\<lambda>k. k)\<rparr>"

definition ex_book2 :: book_request where
  "ex_book2 = \<lparr>b_caller = ex_scholar2, b_slotId = ''s-free'', b_notes = None,
      b_outcome = Provisioned (Some ''https://meet.google.com/xyz-abcd-efg''),
      b_rnd = (\<lambda>k. 0)\<rparr>"

text \<open>Creation requests on 2025-03-01, on a server whose clock runs on UTC: 09:00 to
  10:00, 09:30 to 10:30, 10:00 to 11:00, 11:30 to 12:30, and one that ends before it
  starts.\<close>

definition utc :: "instant \<Rightarrow> int" where
  "utc t = 0"

definition ex_req_0900 :: slot_request where
  "ex_req_0900 = \<lparr>q_start_time = 1740819600000, q_end_time = 1740823200000,
     q_date = 1740787200000\<rparr>"

definition ex_req_0930 :: slot_request where
  "ex_req_0930 = \<lparr>q_start_time = 1740821400000, q_end_time = 1740825000000,
     q_date = 1740787200000\<rparr>"

definition ex_req_1000 :: slot_request where
  "ex_req_1000 = \<lparr>q_start_time = 1740823200000, q_end_time = 1740826800000,
     q_date = 1740787200000\<rparr>"

definition ex_req_1130 :: slot_request where
  "ex_req_1130 = \<lparr>q_start_time = 1740828600000, q_end_time = 1740832200000,
     q_date = 1740787200000\<rparr>"

definition ex_req_backwards :: slot_request where
  "ex_req_backwards = \<lparr>q_start_time = 1740823200000, q_end_time = 1740819600000,
     q_date = 1740787200000\<rparr>"

definition ex_ops :: "slot_op list" where
  "ex_ops = [CreateSlot ex_faculty ''s1'' ex_req_0900,
             CreateSlot ex_faculty ''s2'' ex_req_0930,
             CreateSlot ex_faculty ''s3'' ex_req_1000]"

text \<open>A table for the listing: slots on the day before, on the day and on the day after.\<close>

definition ex_slot_past :: slot_row where
  "ex_slot_past = \<lparr>s_id = ''s-past'', s_faculty_id = ''u-fac'', s_scholar_id = None,
     s_date = 20147, s_start_time = 32400, s_end_time = 36000, s_status = Available,
     s_notes = None, s_meeting_link = None\<rparr>"

definition ex_slot_later :: slot_row where
  "ex_slot_later = \<lparr>s_id = ''s-later'', s_faculty_id = ''u-fac'', s_scholar_id = None,
     s_date = 20148, s_start_time = 50400, s_end_time = 54000, s_status = Available,
     s_notes = None, s_meeting_link = None\<rparr>"

definition ex_slot_next_day :: slot_row where
  "ex_slot_next_day = \<lparr>s_id = ''s-next'', s_faculty_id = ''u-admin'', s_scholar_id = None,
     s_date = 20149, s_start_time = 3600, s_end_time = 7200, s_status = Available,
     s_notes = None, s_meeting_link = None\<rparr>"

definition ex_store_listing :: store where
  "ex_store_listing = \<lparr>users = ex_users, user_roles = ex_roles,
     slots = [ex_slot_next_day, ex_slot_later, ex_slot_past, ex_slot_booked, ex_slot_free]\<rparr>"

text \<open>Two creation requests whose periods overlap: 23:00 to 01:00 of the next day, and
  23:30 to 23:45; and the rows they are stored as.\<close>

definition ex_req_night :: slot_request where
  "ex_req_night = \<lparr>q_start_time = 1740870000000, q_end_time = 1740877200000,
     q_date = 1740787200000\<rparr>"

definition ex_req_2330 :: slot_request where
  "ex_req_2330 = \<lparr>q_start_time = 1740871800000, q_end_time = 1740872700000,
     q_date = 1740787200000\<rparr>"

definition ex_slot_night :: slot_row where
  "ex_slot_night = \<lparr>s_id = ''s-night'', s_faculty_id = ''u-fac'', s_scholar_id = None,
     s_date = 20148, s_start_time = 82800, s_end_time = 3600, s_status = Available,
     s_notes = None, s_meeting_link = None\<rparr>"

definition ex_slot_2330 :: slot_row where
  "ex_slot_2330 = \<lparr>s_id = ''s-2330'', s_faculty_id = ''u-fac'', s_scholar_id = None,
     s_date = 20148, s_start_time = 84600, s_end_time = 85500, s_status = Available,
     s_notes = None, s_meeting_link = None\<rparr>"

text \<open>An admin and a scholar whose ids are spelled as PostgreSQL prints them, for the
  requests that name a user by id.\<close>

definition ex_uuid_admin :: identity where
  "ex_uuid_admin = \<lparr>c_id = ''a0eebc99-9c0b-4ef8-bb6d-6bb9bd380a11'', c_email = ''root@x.com'',
     c_name = ''Root'', c_role = ''admin''\<rparr>"

definition ex_uuid_users :: "user_row list" where
  "ex_uuid_users =
     [\<lparr>u_id = ''a0eebc99-9c0b-4ef8-bb6d-6bb9bd380a11'', u_email = ''root@x.com'',
       u_name = ''Root'', u_picture = None, u_google_id = Some ''g-admin'', u_role = ''admin'',
       u_last_login = 0\<rparr>,
      \<lparr>u_id = ''b1ffcd00-1d2e-4a3b-8c4d-5e6f708192a3'', u_email = ''sch@x.com'',
       u_name = ''Sam'', u_picture = None, u_google_id = Some ''g-sch'', u_role = ''scholar'',
       u_last_login = 0\<rparr>]"

definition ex_uuid_roles :: "role_row list" where
  "ex_uuid_roles =
     [\<lparr>r_email = ''root@x.com'', r_role = ''admin'', r_updated_at = 0\<rparr>,
      \<lparr>r_email = ''sch@x.com'', r_role = ''scholar'', r_updated_at = 0\<rparr>]"

definition ex_uuid_store :: store where
  "ex_uuid_store = \<lparr>users = ex_uuid_users, user_roles = ex_uuid_roles, slots = []\<rparr>"

text \<open>A verified login of an email the store does not know.\<close>

definition ex_payload :: payload where
  "ex_payload = \<lparr>p_email = ''new@x.com'', p_name = ''Nia'', p_picture = None, p_sub = ''g-new''\<rparr>"

section \<open>Properties\<close>

subsection \<open>Rows with a unique key\<close>

lemma single_filter_unique:
  assumes "distinct (map key xs)" and "x \<in> set xs" and "P x"
    and "\<And>y. P y \<Longrightarrow> key y = key x"
  shows "filter P xs = [x]"
  using assms(1,2)
proof (induction xs)
  case Nil
  then show ?case by simp
next
  case (Cons a xs)
  show ?case
  proof (cases "a = x")
    case True
    with Cons.prems have "key x \<notin> key ` set xs" by simp
    then have "\<forall>y\<in>set xs. \<not> P y" using assms(4) by (metis image_eqI)
    then have "filter P xs = []" by (simp add: filter_empty_conv)
    with True assms(3) show ?thesis by simp
  next
    case False
    with Cons.prems have xin: "x \<in> set xs" and d: "distinct (map key xs)"
      and "key a \<notin> key ` set xs" by auto
    then have "key a \<noteq> key x" by (metis image_eqI)
    then have "\<not> P a" using assms(4) by blast
    with Cons.IH [OF d xin] show ?thesis by simp
  qed
qed

lemma filter_absent_key:
  "k \<notin> set (map key xs) \<Longrightarrow> filter (\<lambda>x. key x = k) xs = []"
  by (induction xs) auto

lemma filter_key_at_most_one:
  assumes "distinct (map key xs)"
  shows "filter (\<lambda>x. key x = k) xs = [] \<or> (\<exists>x. filter (\<lambda>x. key x = k) xs = [x])"
proof (cases "k \<in> set (map key xs)")
  case False
  then show ?thesis by (simp add: filter_absent_key)
next
  case True
  then obtain x where x: "x \<in> set xs" "key x = k" by auto
  have "filter (\<lambda>x. key x = k) xs = [x]"
    by (rule single_filter_unique [where key = key]) (use assms x in auto)
  then show ?thesis by blast
qed

subsection \<open>Unfolding the examples\<close>

lemmas ex_slots_defs = ex_store_slots_def ex_slot_free_def ex_slot_booked_def
  ex_slot_cancelled_def ex_faculty_def ex_scholar_def

lemmas uuid_eval = uuid_canon_def uuid_in_def uuid_out_def read_bytes.simps isxdigit_def
  lower_hex_def Let_def

lemmas ex_req_defs = ex_req_0900_def ex_req_0930_def ex_req_1000_def ex_req_1130_def
  ex_req_backwards_def timeOnly_def dateOnly_def utc_def

subsection \<open>Changing one's own role\<close>

text \<open>
  What the guards do achieve. A role change whose target is, letter for letter, the
  caller's own user id (by id) or own email (by email) never changes either table and
  always ends in an error. The error is \<open>Forbidden\<close> whenever the requested role is
  one of the three valid roles (and, by email, the caller's email is not empty), for a
  caller of any role: a caller who is not an admin is stopped by the gate, an admin by the
  handler's own check. A request whose role is not valid is answered \<open>InvalidRole\<close>
  instead, because the handlers validate the role before they compare the target with the
  caller.
\<close>

lemma self_role_change_forbidden:
  "(role \<in> set valid_roles \<longrightarrow>
      patch_role_route caller (c_id caller) role now st = (Inl Forbidden, st)) \<and>
   (role \<in> set valid_roles \<and> c_email caller \<noteq> [] \<longrightarrow>
      set_role_by_email_route caller (c_email caller) role now st = (Inl Forbidden, st)) \<and>
   snd (patch_role_route caller (c_id caller) role now st) = st \<and>
   isl (fst (patch_role_route caller (c_id caller) role now st)) \<and>
   snd (set_role_by_email_route caller (c_email caller) role now st) = st \<and>
   isl (fst (set_role_by_email_route caller (c_email caller) role now st))"
  by (auto simp: patch_role_route_def patch_role_def set_role_by_email_route_def
      set_role_by_email_def valid_roles_def)

lemma self_role_change_forbidden_example:
  "''faculty'' \<in> set valid_roles \<and> c_email ex_admin \<noteq> [] \<and>
   patch_role_route ex_admin (c_id ex_admin) ''faculty'' 5 ex_store = (Inl Forbidden, ex_store) \<and>
   set_role_by_email_route ex_admin (c_email ex_admin) ''faculty'' 5 ex_store
     = (Inl Forbidden, ex_store)"
  using self_role_change_forbidden [of "''faculty''" ex_admin 5 ex_store]
  by (simp add: valid_roles_def ex_admin_def)

text \<open>An admin asking for the role \<^verbatim>\<open>superuser\<close> on their own account is answered
  \<open>InvalidRole\<close> (HTTP 400), not \<open>Forbidden\<close>, on both routes.\<close>

lemma self_role_change_invalid_role_example:
  "fst (patch_role_route ex_admin (c_id ex_admin) ''superuser'' 5 ex_store) = Inl InvalidRole \<and>
   fst (patch_role_route ex_admin (c_id ex_admin) ''superuser'' 5 ex_store) \<noteq> Inl Forbidden \<and>
   fst (set_role_by_email_route ex_admin (c_email ex_admin) ''superuser'' 5 ex_store)
     = Inl InvalidRole \<and>
   fst (set_role_by_email_route ex_admin (c_email ex_admin) ''superuser'' 5 ex_store)
     \<noteq> Inl Forbidden"
  by (simp add: patch_role_route_def patch_role_def set_role_by_email_route_def
      set_role_by_email_def requireRole_def valid_roles_def ex_admin_def)

text \<open>
  C6 requires that a role change aimed at the caller's own user id fails with
  \<open>Forbidden\<close> and changes no role, for every caller including an admin. The handler
  compares the id of the request with the caller's id as texts, while the store reads the
  id of the request as a uuid; the schema's trigger \<^verbatim>\<open>check_self_role_change\<close> compares
  with \<^verbatim>\<open>auth.uid()\<close>, which is NULL for the service-role client of the backend, and
  never fires. So an admin who spells their own id in upper case passes the guard, the
  store finds the admin's own row, and the request is answered with the updated user.
  Here the only admin makes themself a scholar, in both tables.
\<close>

theorem self_role_change_by_respelled_id:
  "''A0EEBC99-9C0B-4EF8-BB6D-6BB9BD380A11'' \<noteq> c_id ex_uuid_admin \<and>
   uuid_canon ''A0EEBC99-9C0B-4EF8-BB6D-6BB9BD380A11'' = Some (c_id ex_uuid_admin) \<and>
   fst (patch_role_route ex_uuid_admin ''A0EEBC99-9C0B-4EF8-BB6D-6BB9BD380A11'' ''scholar'' 5
          ex_uuid_store)
     = Inr \<lparr>u_id = ''a0eebc99-9c0b-4ef8-bb6d-6bb9bd380a11'', u_email = ''root@x.com'',
            u_name = ''Root'', u_picture = None, u_google_id = Some ''g-admin'',
            u_role = ''scholar'', u_last_login = 0\<rparr> \<and>
   map (\<lambda>u. (u_email u, u_role u))
       (users (snd (patch_role_route ex_uuid_admin ''A0EEBC99-9C0B-4EF8-BB6D-6BB9BD380A11''
          ''scholar'' 5 ex_uuid_store)))
     = [(''root@x.com'', ''scholar''), (''sch@x.com'', ''scholar'')] \<and>
   map (\<lambda>r. (r_email r, r_role r))
       (user_roles (snd (patch_role_route ex_uuid_admin ''A0EEBC99-9C0B-4EF8-BB6D-6BB9BD380A11''
          ''scholar'' 5 ex_uuid_store)))
     = [(''root@x.com'', ''scholar''), (''sch@x.com'', ''scholar'')]"
proof -
  have c: "uuid_canon ''A0EEBC99-9C0B-4EF8-BB6D-6BB9BD380A11''
      = Some ''a0eebc99-9c0b-4ef8-bb6d-6bb9bd380a11''"
    by (simp add: uuid_eval)
  show ?thesis
    by (simp add: c patch_role_route_def patch_role_def requireRole_def valid_roles_def Let_def
        upsert_role_def update_role_by_id_def ex_uuid_admin_def ex_uuid_store_def
        ex_uuid_users_def ex_uuid_roles_def)
qed

subsection \<open>Booking a slot that is not available\<close>

text \<open>
  C2. A booking request that names a slot id for which the table holds no row with that id
  and status \<open>Available\<close> (no such slot, or one that is booked, cancelled or completed)
  is answered \<open>SlotUnavailable\<close>, HTTP 404, and the store is returned as it was. This
  holds of the handler for any caller, hence of the route for a caller the gate lets
  through; the route never changes the store on such a request.
\<close>

theorem book_unavailable:
  assumes "\<not> (\<exists>s\<in>set (slots st). s_id s = b_slotId r \<and> s_status s = Available)"
  shows "book r st = (Inl SlotUnavailable, st) \<and>
         (requireRole [''scholar''] (b_caller r) \<longrightarrow> book_route r st = (Inl SlotUnavailable, st)) \<and>
         snd (book_route r st) = st \<and>
         http_status SlotUnavailable = 404"
proof -
  from assms have "filter (\<lambda>s. s_id s = b_slotId r \<and> s_status s = Available) (slots st) = []"
    by (auto simp: filter_empty_conv)
  then have "book r st = (Inl SlotUnavailable, st)"
    by (simp add: book_def book_fetch_def)
  then show ?thesis by (simp add: book_route_def)
qed

theorem book_unavailable_witness:
  "\<not> (\<exists>s\<in>set (slots ex_store_slots). s_id s = b_slotId ex_request \<and> s_status s = Available) \<and>
   requireRole [''scholar''] (b_caller ex_request) \<and>
   book_route ex_request ex_store_slots = (Inl SlotUnavailable, ex_store_slots)"
proof -
  have h: "\<not> (\<exists>s\<in>set (slots ex_store_slots). s_id s = b_slotId ex_request \<and> s_status s = Available)"
    by (simp add: ex_slots_defs ex_request_def)
  have g: "requireRole [''scholar''] (b_caller ex_request)"
    by (simp add: requireRole_def ex_request_def ex_scholar2_def)
  from book_unavailable [OF h] g h show ?thesis by blast
qed

subsection \<open>Deleting a slot\<close>

text \<open>
  C5, as amended. In a slots table whose ids are distinct: a deletion request for which no
  row has the given id and the caller as its faculty is answered \<open>SlotNotFound\<close>, whether
  the slot does not exist or belongs to someone else; if the matching row is \<open>Booked\<close>
  the answer is \<open>Forbidden\<close>; and if the matching row has any other status (available,
  but also cancelled or completed) the row is deleted. The first two answers leave the
  store as it was. A caller the gate lets through gets the handler's answer.
\<close>

theorem delete_slot_outcomes:
  assumes "distinct (map s_id (slots st))"
  shows "(\<not> (\<exists>s\<in>set (slots st). s_id s = slotId \<and> s_faculty_id s = c_id caller) \<longrightarrow>
            delete_slot caller slotId st = (Inl SlotNotFound, st)) \<and>
         (\<forall>s\<in>set (slots st). s_id s = slotId \<and> s_faculty_id s = c_id caller \<longrightarrow>
            (s_status s = Booked \<longrightarrow> delete_slot caller slotId st = (Inl Forbidden, st)) \<and>
            (s_status s \<noteq> Booked \<longrightarrow>
               delete_slot caller slotId st
                 = (Inr (), st\<lparr>slots := filter (\<lambda>x. s_id x \<noteq> slotId) (slots st)\<rparr>))) \<and>
         (requireRole [''faculty'', ''admin''] caller \<longrightarrow>
            delete_slot_route caller slotId st = delete_slot caller slotId st)"
proof (intro conjI impI ballI)
  assume "\<not> (\<exists>s\<in>set (slots st). s_id s = slotId \<and> s_faculty_id s = c_id caller)"
  then have "filter (\<lambda>s. s_id s = slotId \<and> s_faculty_id s = c_id caller) (slots st) = []"
    by (auto simp: filter_empty_conv)
  then show "delete_slot caller slotId st = (Inl SlotNotFound, st)"
    by (simp add: delete_slot_def)
next
  fix s assume s: "s \<in> set (slots st)" "s_id s = slotId \<and> s_faculty_id s = c_id caller"
  have f: "filter (\<lambda>s. s_id s = slotId \<and> s_faculty_id s = c_id caller) (slots st) = [s]"
    by (rule single_filter_unique [where key = s_id]) (use assms s in auto)
  { assume "s_status s = Booked"
    with f show "delete_slot caller slotId st = (Inl Forbidden, st)"
      by (simp add: delete_slot_def) }
  { assume "s_status s \<noteq> Booked"
    with f show "delete_slot caller slotId st
        = (Inr (), st\<lparr>slots := filter (\<lambda>x. s_id x \<noteq> slotId) (slots st)\<rparr>)"
      by (simp add: delete_slot_def) }
next
  assume "requireRole [''faculty'', ''admin''] caller"
  then show "delete_slot_route caller slotId st = delete_slot caller slotId st"
    by (simp add: delete_slot_route_def)
qed

theorem delete_slot_outcomes_witness:
  "distinct (map s_id (slots ex_store_slots)) \<and>
   delete_slot ex_scholar ''s-free'' ex_store_slots = (Inl SlotNotFound, ex_store_slots) \<and>
   delete_slot ex_faculty ''s-booked'' ex_store_slots = (Inl Forbidden, ex_store_slots) \<and>
   delete_slot ex_faculty ''s-free'' ex_store_slots
     = (Inr (), ex_store_slots\<lparr>slots := [ex_slot_booked, ex_slot_cancelled]\<rparr>)"
proof -
  have d: "distinct (map s_id (slots ex_store_slots))"
    by (simp add: ex_slots_defs)
  have a: "\<not> (\<exists>s\<in>set (slots ex_store_slots).
             s_id s = ''s-free'' \<and> s_faculty_id s = c_id ex_scholar)"
    by (simp add: ex_slots_defs)
  have b: "ex_slot_booked \<in> set (slots ex_store_slots)"
    "ex_slot_free \<in> set (slots ex_store_slots)"
    by (simp_all add: ex_store_slots_def)
  have c: "s_id ex_slot_booked = ''s-booked''" "s_faculty_id ex_slot_booked = c_id ex_faculty"
    "s_status ex_slot_booked = Booked" "s_id ex_slot_free = ''s-free''"
    "s_faculty_id ex_slot_free = c_id ex_faculty" "s_status ex_slot_free \<noteq> Booked"
    by (simp_all add: ex_slots_defs)
  have e: "filter (\<lambda>x. s_id x \<noteq> ''s-free'') (slots ex_store_slots)
             = [ex_slot_booked, ex_slot_cancelled]"
    by (simp add: ex_slots_defs)
  from delete_slot_outcomes [OF d, of "''s-free''" ex_scholar] a
  have 1: "delete_slot ex_scholar ''s-free'' ex_store_slots = (Inl SlotNotFound, ex_store_slots)"
    by blast
  from delete_slot_outcomes [OF d, of "''s-booked''" ex_faculty] b c
  have 2: "delete_slot ex_faculty ''s-booked'' ex_store_slots = (Inl Forbidden, ex_store_slots)"
    by blast
  from delete_slot_outcomes [OF d, of "''s-free''" ex_faculty] b c
  have 3: "delete_slot ex_faculty ''s-free'' ex_store_slots
      = (Inr (), ex_store_slots\<lparr>slots :=
           filter (\<lambda>x. s_id x \<noteq> ''s-free'') (slots ex_store_slots)\<rparr>)"
    by blast
  from d 1 2 3 e show ?thesis by simp
qed

text \<open>The faculty member deletes their own cancelled slot: the request succeeds and the
  row is gone, although the slot was not \<open>Available\<close>.\<close>

theorem delete_cancelled_slot_counterexample:
  "s_status ex_slot_cancelled = Cancelled \<and>
   ex_slot_cancelled \<in> set (slots ex_store_slots) \<and>
   delete_slot_route ex_faculty ''s-cancelled'' ex_store_slots
     = (Inr (), ex_store_slots\<lparr>slots := [ex_slot_free, ex_slot_booked]\<rparr>)"
  by (simp add: delete_slot_route_def delete_slot_def requireRole_def ex_slots_defs)

subsection \<open>Creating a slot\<close>

text \<open>
  C4. Slot creation validates in order. Write \<open>S\<close> and \<open>E\<close> for the times of day
  of the submitted start and end, and \<open>D\<close> for the submitted date. If the submitted end
  is not after the submitted start, the answer is \<open>InvalidRange\<close> whatever the store
  holds, and the store is untouched. Otherwise the answer is \<open>SlotConflict\<close> (HTTP
  409, store untouched) if and only if some existing slot of the caller on date \<open>D\<close>,
  whatever its status, satisfies the three-way condition: \<open>S\<close> falls inside it, or
  \<open>E\<close> falls inside it, or the new slot contains it. Otherwise, the new id being
  unused and the caller being a row of the users table, the slot is inserted with status
  \<open>Available\<close>. A caller the gate lets through gets the handler's answer.
\<close>

theorem create_slot_outcomes:
  fixes caller tz new_id req st
  defines "S \<equiv> timeOnly tz (q_start_time req)"
    and "E \<equiv> timeOnly tz (q_end_time req)"
    and "D \<equiv> dateOnly (q_date req)"
  defines "conflict \<equiv> (\<exists>e\<in>set (slots st). s_faculty_id e = c_id caller \<and> s_date e = D \<and>
             ((s_start_time e \<le> S \<and> S < s_end_time e) \<or>
              (s_start_time e < E \<and> E \<le> s_end_time e) \<or>
              (S \<le> s_start_time e \<and> s_end_time e \<le> E)))"
  shows "(q_end_time req \<le> q_start_time req \<longrightarrow>
            create_slot caller tz new_id req st = (Inl InvalidRange, st)) \<and>
         (q_start_time req < q_end_time req \<and> conflict \<longrightarrow>
            create_slot caller tz new_id req st = (Inl SlotConflict, st)) \<and>
         (q_start_time req < q_end_time req \<longrightarrow>
            (fst (create_slot caller tz new_id req st) = Inl SlotConflict) = conflict) \<and>
         (q_start_time req < q_end_time req \<and> \<not> conflict \<and>
            new_id \<notin> set (map s_id (slots st)) \<and> user_exists (c_id caller) st \<longrightarrow>
            create_slot caller tz new_id req st
              = (Inr \<lparr>s_id = new_id, s_faculty_id = c_id caller, s_scholar_id = None,
                      s_date = D, s_start_time = S, s_end_time = E, s_status = Available,
                      s_notes = None, s_meeting_link = None\<rparr>,
                 st\<lparr>slots := slots st @
                   [\<lparr>s_id = new_id, s_faculty_id = c_id caller, s_scholar_id = None,
                     s_date = D, s_start_time = S, s_end_time = E, s_status = Available,
                     s_notes = None, s_meeting_link = None\<rparr>]\<rparr>)) \<and>
         (requireRole [''faculty'', ''admin''] caller \<longrightarrow>
            create_slot_route caller tz new_id req st = create_slot caller tz new_id req st) \<and>
         http_status SlotConflict = 409"
proof -
  have c: "conflict = (filter (\<lambda>e. s_faculty_id e = c_id caller \<and> s_date e = D
                              \<and> overlap_filter S E e) (slots st) \<noteq> [])"
    unfolding conflict_def by (auto simp: filter_empty_conv overlap_filter_def)
  show ?thesis
    unfolding c
    by (auto simp: create_slot_def create_slot_route_def Let_def insert_slot_def S_def E_def D_def
        split: option.splits)
qed

theorem create_slot_outcomes_witness:
  "q_end_time ex_req_backwards \<le> q_start_time ex_req_backwards \<and>
   create_slot_route ex_faculty utc ''s9'' ex_req_backwards ex_store_slots
     = (Inl InvalidRange, ex_store_slots) \<and>
   q_start_time ex_req_1130 < q_end_time ex_req_1130 \<and>
   create_slot_route ex_faculty utc ''s9'' ex_req_1130 ex_store_slots
     = (Inl SlotConflict, ex_store_slots) \<and>
   q_start_time ex_req_0900 < q_end_time ex_req_0900 \<and>
   ''s-free'' \<notin> set (map s_id (slots ex_store)) \<and>
   user_exists (c_id ex_faculty) ex_store \<and>
   create_slot_route ex_faculty utc ''s-free'' ex_req_0900 ex_store
     = (Inr ex_slot_free, ex_store\<lparr>slots := [ex_slot_free]\<rparr>)"
proof -
  have g: "requireRole [''faculty'', ''admin''] ex_faculty"
    by (simp add: requireRole_def ex_faculty_def)
  have b: "q_end_time ex_req_backwards \<le> q_start_time ex_req_backwards"
    by (simp add: ex_req_defs)
  have o: "q_start_time ex_req_1130 < q_end_time ex_req_1130"
    "q_start_time ex_req_0900 < q_end_time ex_req_0900"
    by (simp_all add: ex_req_defs)
  have cf: "\<exists>e\<in>set (slots ex_store_slots). s_faculty_id e = c_id ex_faculty \<and>
       s_date e = dateOnly (q_date ex_req_1130) \<and>
       ((s_start_time e \<le> timeOnly utc (q_start_time ex_req_1130) \<and>
         timeOnly utc (q_start_time ex_req_1130) < s_end_time e) \<or>
        (s_start_time e < timeOnly utc (q_end_time ex_req_1130) \<and>
         timeOnly utc (q_end_time ex_req_1130) \<le> s_end_time e) \<or>
        (timeOnly utc (q_start_time ex_req_1130) \<le> s_start_time e \<and>
         s_end_time e \<le> timeOnly utc (q_end_time ex_req_1130)))"
    by (simp add: ex_req_defs ex_slots_defs)
  have nc: "\<not> (\<exists>e\<in>set (slots ex_store). s_faculty_id e = c_id ex_faculty \<and>
       s_date e = dateOnly (q_date ex_req_0900) \<and>
       ((s_start_time e \<le> timeOnly utc (q_start_time ex_req_0900) \<and>
         timeOnly utc (q_start_time ex_req_0900) < s_end_time e) \<or>
        (s_start_time e < timeOnly utc (q_end_time ex_req_0900) \<and>
         timeOnly utc (q_end_time ex_req_0900) \<le> s_end_time e) \<or>
        (timeOnly utc (q_start_time ex_req_0900) \<le> s_start_time e \<and>
         s_end_time e \<le> timeOnly utc (q_end_time ex_req_0900))))"
    by (simp add: ex_store_def)
  have f: "''s-free'' \<notin> set (map s_id (slots ex_store))" "user_exists (c_id ex_faculty) ex_store"
    by (simp_all add: ex_store_def user_exists_def ex_users_def ex_faculty_def)
  have v: "\<lparr>s_id = ''s-free'', s_faculty_id = c_id ex_faculty, s_scholar_id = None,
             s_date = dateOnly (q_date ex_req_0900),
             s_start_time = timeOnly utc (q_start_time ex_req_0900),
             s_end_time = timeOnly utc (q_end_time ex_req_0900), s_status = Available,
             s_notes = None, s_meeting_link = None\<rparr> = ex_slot_free"
    by (simp add: ex_req_defs ex_slot_free_def ex_faculty_def)
  have e: "slots ex_store = []" by (simp add: ex_store_def)
  from create_slot_outcomes [of ex_req_backwards ex_faculty utc "''s9''" ex_store_slots] b g
  have 1: "create_slot_route ex_faculty utc ''s9'' ex_req_backwards ex_store_slots
     = (Inl InvalidRange, ex_store_slots)" by simp
  from create_slot_outcomes [of ex_req_1130 ex_faculty utc "''s9''" ex_store_slots] o cf g
  have 2: "create_slot_route ex_faculty utc ''s9'' ex_req_1130 ex_store_slots
     = (Inl SlotConflict, ex_store_slots)" by simp
  from create_slot_outcomes [of ex_req_0900 ex_faculty utc "''s-free''" ex_store] o nc f g
  have 3: "create_slot_route ex_faculty utc ''s-free'' ex_req_0900 ex_store
     = (Inr ex_slot_free, ex_store\<lparr>slots := [ex_slot_free]\<rparr>)"
    unfolding v by (simp add: e)
  from b o f 1 2 3 show ?thesis by simp
qed

subsection \<open>Overlap of accepted slots\<close>

lemma no_overlap_filter_disjoint:
  assumes "\<not> overlap_filter S E e"
  shows "{s_start_time e ..< s_end_time e} \<inter> {S ..< E} = {}"
proof -
  have "\<not> (s_start_time e \<le> t \<and> t < s_end_time e \<and> S \<le> t \<and> t < E)" for t
    using assms unfolding overlap_filter_def by linarith
  then have "t \<notin> {s_start_time e ..< s_end_time e} \<inter> {S ..< E}" for t
    by (simp only: Int_iff atLeastLessThan_iff) blast
  then show ?thesis by blast
qed

lemma create_slot_inv:
  assumes "slots_inv st"
  shows "slots_inv (snd (create_slot caller tz new_id req st))"
proof (cases "\<exists>slot. create_slot caller tz new_id req st = (Inr slot, st\<lparr>slots := slots st @ [slot]\<rparr>)")
  case False
  then have "snd (create_slot caller tz new_id req st) = st"
    by (auto simp: create_slot_def Let_def insert_slot_def split: option.splits if_splits)
  with assms show ?thesis by simp
next
  case True
  then obtain slot where r: "create_slot caller tz new_id req st = (Inr slot, st\<lparr>slots := slots st @ [slot]\<rparr>)"
    by blast
  let ?S = "timeOnly tz (q_start_time req)" and ?E = "timeOnly tz (q_end_time req)"
  from r have fresh: "s_id slot \<notin> set (map s_id (slots st))"
    and iv: "interval slot = {?S ..< ?E}"
    and nf: "\<forall>e\<in>set (slots st). s_faculty_id e = s_faculty_id slot \<and> s_date e = s_date slot
                \<longrightarrow> \<not> overlap_filter ?S ?E e"
    by (auto simp: create_slot_def Let_def insert_slot_def interval_def filter_empty_conv
        split: option.splits if_splits)
  have d: "\<forall>e\<in>set (slots st). s_faculty_id e = s_faculty_id slot \<and> s_date e = s_date slot
                \<longrightarrow> interval e \<inter> interval slot = {}"
  proof (intro ballI impI)
    fix e assume "e \<in> set (slots st)"
      and "s_faculty_id e = s_faculty_id slot \<and> s_date e = s_date slot"
    with nf have "\<not> overlap_filter ?S ?E e" by blast
    then have "{s_start_time e ..< s_end_time e} \<inter> {?S ..< ?E} = {}"
      by (rule no_overlap_filter_disjoint)
    then show "interval e \<inter> interval slot = {}"
      unfolding iv by (simp only: interval_def)
  qed
  then have d': "\<forall>e\<in>set (slots st). s_faculty_id e = s_faculty_id slot \<and> s_date e = s_date slot
                \<longrightarrow> interval slot \<inter> interval e = {}"
    by (simp add: Int_commute)
  from assms fresh d d' have "slots_inv (st\<lparr>slots := slots st @ [slot]\<rparr>)"
    unfolding slots_inv_def slots_disjoint_def by auto
  with r show ?thesis by simp
qed

lemma book_inv:
  assumes "slots_inv st"
  shows "slots_inv (snd (book r st))"
proof -
  have m: "slots_inv (st\<lparr>slots := map g (slots st)\<rparr>)"
    if g: "\<And>s. s_id (g s) = s_id s \<and> s_faculty_id (g s) = s_faculty_id s \<and> s_date (g s) = s_date s
           \<and> interval (g s) = interval s" for g
  proof -
    have c: "s_id \<circ> g = s_id" using g by (simp add: fun_eq_iff)
    have "slots_disjoint (st\<lparr>slots := map g (slots st)\<rparr>)"
      using assms g unfolding slots_inv_def slots_disjoint_def by auto
    with assms show ?thesis by (simp add: slots_inv_def c)
  qed
  show ?thesis
  proof (cases "book_fetch (b_slotId r) st")
    case None
    with assms show ?thesis by (simp add: book_def)
  next
    case (Some a)
    obtain slot faculty where a: "a = (slot, faculty)" by (cases a)
    show ?thesis
    proof (cases "book_update (c_id (b_caller r)) (b_slotId r) (b_notes r)
                    (createRealGoogleMeet (b_outcome r) (b_rnd r) faculty) st")
      case None
      with Some a assms show ?thesis by (simp add: book_def)
    next
      case (Some st1)
      then have "\<exists>g. st1 = st\<lparr>slots := map g (slots st)\<rparr> \<and>
        (\<forall>s. s_id (g s) = s_id s \<and> s_faculty_id (g s) = s_faculty_id s \<and> s_date (g s) = s_date s
           \<and> interval (g s) = interval s)"
        unfolding book_update_def
        by (intro exI[where x="\<lambda>s. if s_id s = b_slotId r
                       then s\<lparr>s_status := Booked, s_scholar_id := Some (c_id (b_caller r)),
                              s_notes := (if truthy (b_notes r) then (b_notes r) else None),
                              s_meeting_link :=
                                (case (createRealGoogleMeet (b_outcome r) (b_rnd r) faculty) of None \<Rightarrow> s_meeting_link s | Some l \<Rightarrow> Some l)\<rparr>
                       else s"]) (auto simp: interval_def split: if_splits)
      then have "slots_inv st1" using m by blast
      with Some \<open>book_fetch (b_slotId r) st = Some a\<close> a show ?thesis by (simp add: book_def)
    qed
  qed
qed

lemma delete_slot_inv:
  assumes "slots_inv st"
  shows "slots_inv (snd (delete_slot caller slotId st))"
proof -
  have "slots_inv (st\<lparr>slots := filter P (slots st)\<rparr>)" for P
    using assms unfolding slots_inv_def slots_disjoint_def by (auto simp: distinct_map_filter)
  with assms show ?thesis
    by (auto simp: delete_slot_def split: option.splits)
qed

lemma apply_op_inv: "slots_inv st \<Longrightarrow> slots_inv (apply_op tz op st)"
  by (cases op)
    (auto simp: create_slot_route_def book_route_def delete_slot_route_def
      intro: create_slot_inv book_inv delete_slot_inv)

lemma run_ops_inv: "slots_inv st \<Longrightarrow> slots_inv (run_ops tz ops st)"
  by (induction ops arbitrary: st) (auto intro: apply_op_inv)

text \<open>
  What the overlap query does guarantee is a property of the stored times of day. Start
  from a store with no slots and run any sequence of creation, booking and deletion
  requests, one after the other: the ids are distinct, and for two rows of one faculty
  member and date the sets of times of day from start time up to end time are disjoint.
  This says nothing about a row whose end time is not after its start time, since its set
  is empty, and such rows are accepted (see below).
\<close>

lemma stored_intervals_disjoint:
  assumes "slots st0 = []"
  shows "distinct (map s_id (slots (run_ops tz ops st0))) \<and>
         (\<forall>A\<in>set (slots (run_ops tz ops st0)). \<forall>B\<in>set (slots (run_ops tz ops st0)).
            s_id A \<noteq> s_id B \<and> s_faculty_id A = s_faculty_id B \<and> s_date A = s_date B
              \<longrightarrow> {s_start_time A ..< s_end_time A} \<inter> {s_start_time B ..< s_end_time B} = {})"
proof -
  from assms have "slots_inv st0" by (simp add: slots_inv_def slots_disjoint_def)
  then have "slots_inv (run_ops tz ops st0)" by (rule run_ops_inv)
  then show ?thesis by (simp add: slots_inv_def slots_disjoint_def interval_def)
qed

lemma stored_intervals_disjoint_example:
  "slots ex_store = [] \<and>
   map s_id (slots (run_ops utc ex_ops ex_store)) = [''s1'', ''s3''] \<and>
   slots_disjoint (run_ops utc ex_ops ex_store)"
proof -
  have e: "slots ex_store = []" by (simp add: ex_store_def)
  have r: "map s_id (slots (run_ops utc ex_ops ex_store)) = [''s1'', ''s3'']"
    by (simp add: ex_ops_def create_slot_route_def create_slot_def requireRole_def Let_def
        insert_slot_def user_exists_def overlap_filter_def ex_store_def ex_users_def
        ex_faculty_def ex_req_defs)
  from stored_intervals_disjoint [OF e, of utc ex_ops]
  have "slots_disjoint (run_ops utc ex_ops ex_store)"
    unfolding slots_disjoint_def interval_def by blast
  with e r show ?thesis by simp
qed

text \<open>
  C3 requires that two slots accepted, one after the other, for one faculty member and
  date do not overlap. The handler checks that the submitted end is after the submitted
  start as instants, but it stores, and its overlap query compares, times of day. A
  request from 23:00 to 01:00 of the next day is accepted and stored with the end time
  01:00 before the start time 23:00. No clause of the overlap query matches that row
  against a later request from 23:30 to 23:45 of the same day, which is accepted as well,
  although its period lies inside the first one.
\<close>

theorem overlapping_slots_both_accepted:
  "create_slot_route ex_faculty utc ''s-night'' ex_req_night ex_store
     = (Inr ex_slot_night, ex_store\<lparr>slots := [ex_slot_night]\<rparr>) \<and>
   create_slot_route ex_faculty utc ''s-2330'' ex_req_2330 (ex_store\<lparr>slots := [ex_slot_night]\<rparr>)
     = (Inr ex_slot_2330, ex_store\<lparr>slots := [ex_slot_night, ex_slot_2330]\<rparr>) \<and>
   s_faculty_id ex_slot_night = s_faculty_id ex_slot_2330 \<and>
   s_date ex_slot_night = s_date ex_slot_2330 \<and>
   q_start_time ex_req_night < q_start_time ex_req_2330 \<and>
   q_start_time ex_req_2330 < q_end_time ex_req_2330 \<and>
   q_end_time ex_req_2330 < q_end_time ex_req_night \<and>
   s_end_time ex_slot_night < s_start_time ex_slot_night"
  by (simp add: create_slot_route_def create_slot_def requireRole_def Let_def insert_slot_def
      user_exists_def overlap_filter_def timeOnly_def dateOnly_def utc_def ex_store_def
      ex_users_def ex_faculty_def ex_req_night_def ex_req_2330_def ex_slot_night_def
      ex_slot_2330_def)

subsection \<open>Listing the available slots\<close>

text \<open>
  C10. The listing returns exactly the slots (as a multiset of rows) whose status is
  \<open>Available\<close> and whose date is not before the current UTC date, narrowed to the
  given faculty id when that parameter is supplied and not empty and to the given date when
  that parameter is supplied; so an available slot with a past date is never returned. The
  rows come ordered by date and, within a date, by start time, each with the users row of
  its faculty id.
\<close>

theorem list_available_exact:
  fixes now faculty_id date st
  defines "listed \<equiv> (\<lambda>s. s_status s = Available \<and> dateOnly now \<le> s_date s \<and>
              (if truthy faculty_id then faculty_id = Some (s_faculty_id s) else True) \<and>
              (case date of None \<Rightarrow> True | Some d \<Rightarrow> s_date s = d))"
  shows "mset (map fst (list_available now faculty_id date st)) = mset (filter listed (slots st)) \<and>
         sorted_wrt (\<lambda>a b. s_date a < s_date b \<or> (s_date a = s_date b \<and> s_start_time a \<le> s_start_time b))
           (map fst (list_available now faculty_id date st)) \<and>
         list_available now faculty_id date st
           = map (\<lambda>s. (s, lookup_user (s_faculty_id s) st))
               (map fst (list_available now faculty_id date st))"
proof -
  let ?key = "\<lambda>s. (s_date s, s_start_time s)"
  let ?q0 = "filter (\<lambda>s. s_status s = Available \<and> s_date s \<ge> dateOnly now) (slots st)"
  let ?q1 = "if truthy faculty_id then filter (\<lambda>s. Some (s_faculty_id s) = faculty_id) ?q0 else ?q0"
  let ?q2 = "case date of Some d \<Rightarrow> filter (\<lambda>s. s_date s = d) ?q1 | None \<Rightarrow> ?q1"
  have fst_eq: "map fst (list_available now faculty_id date st) = sort_key ?key ?q2"
    by (simp add: list_available_def Let_def comp_def)
  have q2: "?q2 = filter listed (slots st)"
    unfolding listed_def by (auto split: option.splits intro: filter_cong)
  have "sorted (map ?key (sort_key ?key ?q2))" by (rule sorted_sort_key)
  then have "sorted_wrt (\<lambda>a b. ?key a \<le> ?key b) (sort_key ?key ?q2)"
    by (simp only: sorted_map)
  then have s: "sorted_wrt (\<lambda>a b. s_date a < s_date b \<or> (s_date a = s_date b \<and> s_start_time a \<le> s_start_time b))
           (sort_key ?key ?q2)"
    by (rule sorted_wrt_mono_rel [rotated]) (auto simp: less_eq_prod_def)
  have m: "mset (sort_key ?key ?q2) = mset (filter listed (slots st))"
    by (simp only: mset_sort q2)
  have l: "list_available now faculty_id date st
           = map (\<lambda>s. (s, lookup_user (s_faculty_id s) st)) (sort_key ?key ?q2)"
    by (simp add: list_available_def Let_def)
  show ?thesis unfolding fst_eq using s m l by simp
qed

text \<open>On 2025-03-01 the table above lists three slots; the one of the day before and the
  booked one are left out.\<close>

lemma list_available_example:
  "map (s_id \<circ> fst) (list_available 1740819600000 None None ex_store_listing)
     = [''s-free'', ''s-later'', ''s-next''] \<and>
   map (s_id \<circ> fst) (list_available 1740819600000 (Some ''u-admin'') None ex_store_listing)
     = [''s-next''] \<and>
   map (s_id \<circ> fst) (list_available 1740819600000 (Some '''') (Some 20148) ex_store_listing)
     = [''s-free'', ''s-later'']"
  by (simp add: list_available_def Let_def truthy_def dateOnly_def ex_store_listing_def
      ex_slot_past_def ex_slot_later_def ex_slot_next_day_def ex_slot_booked_def ex_slot_free_def
      less_eq_prod_def)

subsection \<open>Booking when the meeting cannot be provisioned\<close>

lemma chars_lowercase: "i < 26 \<Longrightarrow> lowercase_letter (chars ! i)"
proof -
  have "list_all lowercase_letter chars"
    by (simp add: chars_def lowercase_letter_def)
  moreover have "length chars = 26" by (simp add: chars_def)
  ultimately show "i < 26 \<Longrightarrow> lowercase_letter (chars ! i)"
    by (simp add: list_all_length)
qed

lemma char_at_in_range: "i < 26 \<Longrightarrow> char_at i = [chars ! i]"
  by (simp add: char_at_def chars_def)

lemma segments_loop_unfold:
  "segments_loop rnd 0 0 [] =
     [segment_loop rnd 0 3 [], segment_loop rnd 3 4 [], segment_loop rnd 7 3 []]"
proof -
  have 3: "segments_loop rnd 3 k segs = segs" for k segs
    by (subst segments_loop.simps) simp
  have 2: "segments_loop rnd 2 k segs = segs @ [segment_loop rnd k 3 []]" for k segs
    by (subst segments_loop.simps) (simp add: segment_length_def 3 numeral_3_eq_3)
  have 1: "segments_loop rnd 1 k segs
      = segs @ [segment_loop rnd k 4 [], segment_loop rnd (k + 4) 3 []]" for k segs
    by (subst segments_loop.simps) (simp add: segment_length_def 2 numeral_2_eq_2)
  show ?thesis
    by (subst segments_loop.simps) (simp add: segment_length_def 1)
qed

lemma segment_loop_3:
  "segment_loop rnd k 3 [] = char_at (rnd k) @ char_at (rnd (k + 1)) @ char_at (rnd (k + 2))"
  by (simp add: numeral_3_eq_3)

lemma segment_loop_4:
  "segment_loop rnd k 4 []
     = char_at (rnd k) @ char_at (rnd (k + 1)) @ char_at (rnd (k + 2)) @ char_at (rnd (k + 3))"
  by (simp add: eval_nat_numeral)

lemma fallback_link_shape:
  assumes "\<forall>k<10. rnd k < 26"
  shows "generateFallbackMeetLink rnd
     = link_prefix @ [chars ! rnd 0, chars ! rnd 1, chars ! rnd 2] @ ''-''
         @ [chars ! rnd 3, chars ! rnd 4, chars ! rnd 5, chars ! rnd 6] @ ''-''
         @ [chars ! rnd 7, chars ! rnd 8, chars ! rnd 9]"
proof -
  have c: "char_at (rnd k) = [chars ! rnd k]" if "k < 10" for k
    using assms that by (simp add: char_at_in_range)
  have s1: "segment_loop rnd 0 3 [] = [chars ! rnd 0, chars ! rnd 1, chars ! rnd 2]"
    unfolding segment_loop_3 by (simp add: c numeral_2_eq_2)
  have s2: "segment_loop rnd 3 4 [] = [chars ! rnd 3, chars ! rnd 4, chars ! rnd 5, chars ! rnd 6]"
    unfolding segment_loop_4 by (simp add: c)
  have s3: "segment_loop rnd 7 3 [] = [chars ! rnd 7, chars ! rnd 8, chars ! rnd 9]"
    unfolding segment_loop_3 by (simp add: c)
  show ?thesis
    unfolding generateFallbackMeetLink_def segments_loop_unfold s1 s2 s3
    by (simp add: link_prefix_def)
qed

lemma lookup_user_exists:
  "user_exists uid st \<Longrightarrow> \<exists>u. lookup_user uid st = Some u"
  unfolding user_exists_def lookup_user_def
  by (cases "find (\<lambda>u. u_id u = uid) (users st)") (auto simp: find_None_iff)

text \<open>
  C8. Take a slots table with distinct ids, an \<open>Available\<close> slot whose faculty id is
  a row of the users table, and a caller who is a row of the users table. If the
  provisioning collaborator fails and every random draw is an index into the 26 letters,
  the booking succeeds: the answer is a booking, not an error, and both the answer's
  meeting link and the stored slot's \<^verbatim>\<open>meeting_link\<close> are the text
  \<^verbatim>\<open>https://meet.google.com/\<close> followed by three segments of lowercase letters, of
  lengths 3, 4 and 3, separated by hyphens. The stored slot is \<open>Booked\<close> by the
  caller. A caller the gate lets through gets the handler's answer.
\<close>

theorem booking_survives_provisioning_failure:
  assumes pk: "distinct (map s_id (slots st))"
    and slot: "slot \<in> set (slots st)" "s_id slot = b_slotId r" "s_status slot = Available"
    and fk: "user_exists (s_faculty_id slot) st"
    and caller: "user_exists (c_id (b_caller r)) st"
    and fail: "b_outcome r = ProvisionFailed"
    and rnd: "\<forall>k<10. b_rnd r k < 26"
  shows "\<exists>a b c bk st'.
           length a = 3 \<and> length b = 4 \<and> length c = 3 \<and>
           (\<forall>x\<in>set (a @ b @ c). lowercase_letter x) \<and>
           book r st = (Inr bk, st') \<and>
           bk_meetingLink bk = Some (''https://meet.google.com/'' @ a @ ''-'' @ b @ ''-'' @ c) \<and>
           bk_slot bk = slot\<lparr>s_status := Booked, s_scholar_id := Some (c_id (b_caller r)),
                              s_notes := (if truthy (b_notes r) then b_notes r else None),
                              s_meeting_link :=
                                Some (''https://meet.google.com/'' @ a @ ''-'' @ b @ ''-'' @ c)\<rparr> \<and>
           bk_slot bk \<in> set (slots st') \<and>
           (requireRole [''scholar''] (b_caller r) \<longrightarrow> book_route r st = book r st)"
proof -
  define a where "a = [chars ! b_rnd r 0, chars ! b_rnd r 1, chars ! b_rnd r 2]"
  define b where "b = [chars ! b_rnd r 3, chars ! b_rnd r 4, chars ! b_rnd r 5, chars ! b_rnd r 6]"
  define c where "c = [chars ! b_rnd r 7, chars ! b_rnd r 8, chars ! b_rnd r 9]"
  define link where "link = ''https://meet.google.com/'' @ a @ ''-'' @ b @ ''-'' @ c"
  define nts where "nts = (if truthy (b_notes r) then b_notes r else None)"
  define booked where "booked = (\<lambda>s::slot_row. s\<lparr>s_status := Booked, s_scholar_id := Some (c_id (b_caller r)),
                       s_notes := nts, s_meeting_link := Some link\<rparr>)"
  define g where "g = (\<lambda>s. if s_id s = b_slotId r then booked s else s)"
  define st1 where "st1 = st\<lparr>slots := map g (slots st)\<rparr>"
  have len: "length a = 3" "length b = 4" "length c = 3"
    by (simp_all add: a_def b_def c_def)
  have low: "\<forall>x\<in>set (a @ b @ c). lowercase_letter x"
    using rnd by (simp add: a_def b_def c_def chars_lowercase)
  have gen: "generateFallbackMeetLink (b_rnd r) = link"
    using fallback_link_shape [OF rnd] by (simp add: link_prefix_def link_def a_def b_def c_def)
  obtain f where f: "lookup_user (s_faculty_id slot) st = Some f"
    using lookup_user_exists [OF fk] by blast
  have fetch1: "filter (\<lambda>s. s_id s = b_slotId r \<and> s_status s = Available) (slots st) = [slot]"
    by (rule single_filter_unique [where key = s_id]) (use pk slot in auto)
  have fetch: "book_fetch (b_slotId r) st = Some (slot, Some f)"
    by (simp add: book_fetch_def fetch1 f)
  have meet: "createRealGoogleMeet (b_outcome r) (b_rnd r) (Some f) = Some link"
    by (simp add: createRealGoogleMeet_def fail gen)
  have upd: "book_update (c_id (b_caller r)) (b_slotId r) (b_notes r) (Some link) st = Some st1"
    using caller by (simp add: book_update_def st1_def g_def booked_def nts_def)
  have byid: "filter (\<lambda>s. s_id s = b_slotId r) (slots st) = [slot]"
    by (rule single_filter_unique [where key = s_id]) (use pk slot in auto)
  have gid: "s_id (g s) = s_id s" for s
    by (simp add: g_def booked_def)
  have "filter (\<lambda>s. s_id s = b_slotId r) (map g (slots st))
          = map g (filter (\<lambda>s. s_id s = b_slotId r) (slots st))"
    by (simp add: filter_map comp_def gid)
  then have re1: "filter (\<lambda>s. s_id s = b_slotId r) (slots st1) = [g slot]"
    by (simp add: byid st1_def)
  have lk: "lookup_user uid st1 = lookup_user uid st" for uid
    by (simp add: lookup_user_def st1_def)
  have gs: "g slot = booked slot"
    using slot by (simp add: g_def)
  have sch: "s_scholar_id (booked slot) = Some (c_id (b_caller r))"
    and fac: "s_faculty_id (booked slot) = s_faculty_id slot"
    by (simp_all add: booked_def)
  have re: "book_refetch (b_caller r) (b_slotId r) (Some link) st1
      = Inr \<lparr>bk_slot = booked slot, bk_faculty = f,
             bk_scholar = lookup_user (c_id (b_caller r)) st, bk_meetingLink = Some link\<rparr>"
    unfolding book_refetch_def re1 gs by (simp add: lk f sch fac)
  have bk: "book r st = (Inr \<lparr>bk_slot = booked slot, bk_faculty = f,
             bk_scholar = lookup_user (c_id (b_caller r)) st, bk_meetingLink = Some link\<rparr>, st1)"
    unfolding book_def fetch by (simp add: meet upd re)
  have mem: "booked slot \<in> set (slots st1)"
    using slot(1) gs by (simp add: st1_def) (metis imageI)
  have route: "requireRole [''scholar''] (b_caller r) \<longrightarrow> book_route r st = book r st"
    by (simp add: book_route_def)
  have "length a = 3 \<and> length b = 4 \<and> length c = 3 \<and>
           (\<forall>x\<in>set (a @ b @ c). lowercase_letter x) \<and>
           book r st = (Inr \<lparr>bk_slot = booked slot, bk_faculty = f,
             bk_scholar = lookup_user (c_id (b_caller r)) st, bk_meetingLink = Some link\<rparr>, st1) \<and>
           bk_meetingLink \<lparr>bk_slot = booked slot, bk_faculty = f,
             bk_scholar = lookup_user (c_id (b_caller r)) st, bk_meetingLink = Some link\<rparr>
             = Some (''https://meet.google.com/'' @ a @ ''-'' @ b @ ''-'' @ c) \<and>
           bk_slot \<lparr>bk_slot = booked slot, bk_faculty = f,
             bk_scholar = lookup_user (c_id (b_caller r)) st, bk_meetingLink = Some link\<rparr>
             = slot\<lparr>s_status := Booked, s_scholar_id := Some (c_id (b_caller r)),
                              s_notes := (if truthy (b_notes r) then b_notes r else None),
                              s_meeting_link :=
                                Some (''https://meet.google.com/'' @ a @ ''-'' @ b @ ''-'' @ c)\<rparr> \<and>
           bk_slot \<lparr>bk_slot = booked slot, bk_faculty = f,
             bk_scholar = lookup_user (c_id (b_caller r)) st, bk_meetingLink = Some link\<rparr>
              \<in> set (slots st1) \<and>
           (requireRole [''scholar''] (b_caller r) \<longrightarrow> book_route r st = book r st)"
    using len low bk mem route by (simp add: booked_def nts_def link_def)
  then show ?thesis by blast
qed

theorem booking_survives_provisioning_failure_witness:
  "distinct (map s_id (slots ex_store_slots)) \<and>
   ex_slot_free \<in> set (slots ex_store_slots) \<and>
   s_id ex_slot_free = b_slotId ex_book \<and>
   s_status ex_slot_free = Available \<and>
   user_exists (s_faculty_id ex_slot_free) ex_store_slots \<and>
   user_exists (c_id (b_caller ex_book)) ex_store_slots \<and>
   b_outcome ex_book = ProvisionFailed \<and>
   list_all (\<lambda>k. b_rnd ex_book k < 26) [0..<10] \<and>
   requireRole [''scholar''] (b_caller ex_book) \<and>
   (\<exists>a b c bk st'.
      length a = 3 \<and> length b = 4 \<and> length c = 3 \<and>
      list_all lowercase_letter (a @ b @ c) \<and>
      book_route ex_book ex_store_slots = (Inr bk, st') \<and>
      bk_meetingLink bk = Some (''https://meet.google.com/'' @ a @ ''-'' @ b @ ''-'' @ c) \<and>
      s_meeting_link (bk_slot bk) = Some (''https://meet.google.com/'' @ a @ ''-'' @ b @ ''-'' @ c) \<and>
      bk_slot bk \<in> set (slots st'))"
proof -
  have h1: "distinct (map s_id (slots ex_store_slots))"
    by (simp add: ex_slots_defs)
  have h2: "ex_slot_free \<in> set (slots ex_store_slots)"
    by (simp add: ex_store_slots_def)
  have h3: "s_id ex_slot_free = b_slotId ex_book" "s_status ex_slot_free = Available"
    by (simp_all add: ex_book_def ex_slot_free_def)
  have h4: "user_exists (s_faculty_id ex_slot_free) ex_store_slots"
    "user_exists (c_id (b_caller ex_book)) ex_store_slots"
    by (simp_all add: user_exists_def ex_book_def ex_slots_defs ex_users_def)
  have h5: "b_outcome ex_book = ProvisionFailed"
    by (simp add: ex_book_def)
  have h6: "\<forall>k<10. b_rnd ex_book k < 26"
    by (simp add: ex_book_def)
  have h6': "list_all (\<lambda>k. b_rnd ex_book k < 26) [0..<10]"
    using h6 by (simp add: list_all_iff)
  have g: "requireRole [''scholar''] (b_caller ex_book)"
    by (simp add: requireRole_def ex_book_def ex_scholar_def)
  from booking_survives_provisioning_failure [OF h1 h2 h3 h4 h5 h6] g
  obtain a b c bk st' where
    "length a = 3" "length b = 4" "length c = 3" "\<forall>x\<in>set (a @ b @ c). lowercase_letter x"
    "book_route ex_book ex_store_slots = (Inr bk, st')"
    "bk_meetingLink bk = Some (''https://meet.google.com/'' @ a @ ''-'' @ b @ ''-'' @ c)"
    "s_meeting_link (bk_slot bk) = Some (''https://meet.google.com/'' @ a @ ''-'' @ b @ ''-'' @ c)"
    "bk_slot bk \<in> set (slots st')"
    by auto
  then have "\<exists>a b c bk st'.
      length a = 3 \<and> length b = 4 \<and> length c = 3 \<and>
      list_all lowercase_letter (a @ b @ c) \<and>
      book_route ex_book ex_store_slots = (Inr bk, st') \<and>
      bk_meetingLink bk = Some (''https://meet.google.com/'' @ a @ ''-'' @ b @ ''-'' @ c) \<and>
      s_meeting_link (bk_slot bk) = Some (''https://meet.google.com/'' @ a @ ''-'' @ b @ ''-'' @ c) \<and>
      bk_slot bk \<in> set (slots st')"
    unfolding list_all_iff by blast
  with h1 h2 h3 h4 h5 h6' g show ?thesis by blast
qed

text \<open>The same request, computed: with draws 0, 1, 2, ... the link is
  \<^verbatim>\<open>https://meet.google.com/abc-defg-hij\<close>.\<close>

lemma book_fallback_example:
  "book_route ex_book ex_store_slots
     = (Inr \<lparr>bk_slot = ex_slot_free\<lparr>s_status := Booked, s_scholar_id := Some ''u-sch'',
                 s_notes := Some ''demo'',
                 s_meeting_link := Some ''https://meet.google.com/abc-defg-hij''\<rparr>,
             bk_faculty = ex_users ! 1, bk_scholar = Some (ex_users ! 2),
             bk_meetingLink = Some ''https://meet.google.com/abc-defg-hij''\<rparr>,
        ex_store_slots\<lparr>slots :=
          [ex_slot_free\<lparr>s_status := Booked, s_scholar_id := Some ''u-sch'',
                 s_notes := Some ''demo'',
                 s_meeting_link := Some ''https://meet.google.com/abc-defg-hij''\<rparr>,
           ex_slot_booked, ex_slot_cancelled]\<rparr>)"
  by (simp add: book_route_def book_def book_fetch_def book_update_def book_refetch_def
      createRealGoogleMeet_def generateFallbackMeetLink_def segment_length_def char_at_def
      chars_def requireRole_def lookup_user_def user_exists_def truthy_def segment_loop_3 Let_def
      segment_loop_4 ex_book_def ex_slots_defs ex_users_def)

subsection \<open>A role assigned before the first login\<close>

lemma users_upsert_role [simp]: "users (upsert_role email role now st) = users st"
  by (simp add: upsert_role_def)

lemma slots_upsert_role [simp]: "slots (upsert_role email role now st) = slots st"
  by (simp add: upsert_role_def)

lemma upsert_role_single:
  assumes "distinct (map r_email (user_roles st))"
  shows "\<exists>rd. filter (\<lambda>x. r_email x = email) (user_roles (upsert_role email role now st)) = [rd]
           \<and> r_role rd = role \<and> r_email rd = email"
proof (cases "email \<in> set (map r_email (user_roles st))")
  case False
  then have "filter (\<lambda>x. r_email x = email) (user_roles st) = []"
    by (rule filter_absent_key)
  with False show ?thesis by (simp add: upsert_role_def)
next
  case True
  then obtain x where x: "x \<in> set (user_roles st)" "r_email x = email" by auto
  let ?g = "\<lambda>r. if r_email r = email then r\<lparr>r_role := role, r_updated_at := now\<rparr> else r"
  have f: "filter (\<lambda>x. r_email x = email) (user_roles st) = [x]"
    by (rule single_filter_unique [where key = r_email]) (use assms x in auto)
  have "filter (\<lambda>x. r_email x = email) (map ?g (user_roles st))
          = map ?g (filter (\<lambda>x. r_email x = email) (user_roles st))"
    by (simp add: filter_map comp_def if_distrib cong: if_cong)
  with f x True show ?thesis by (simp add: upsert_role_def)
qed

text \<open>
  C7. Let a verified login arrive for an email that has no row in the users table, with an
  unused user id and an unused Google id. (1) If an admin (whose own email is a different
  one) first assigns a valid role to that non-empty email, on a role table with unique
  emails, the assignment succeeds and reports that no user exists, and the login that
  follows creates the user with exactly that role, not the default. (2) If the email has
  no role assignment, the login stores a \<^verbatim>\<open>scholar\<close> role record for it and creates the
  user with role \<^verbatim>\<open>scholar\<close>.
\<close>

theorem preassigned_role_round_trip:
  assumes fresh: "new_id \<notin> set (map u_id (users st))"
    and gid: "\<not> google_id_taken (Some (p_sub p)) (users st)"
    and noid: "p_email p \<notin> set (map u_email (users st))"
  shows "(requireRole [''admin''] caller \<and> p_email p \<noteq> [] \<and> p_email p \<noteq> c_email caller \<and>
          role \<in> set valid_roles \<and> distinct (map r_email (user_roles st)) \<longrightarrow>
            fst (set_role_by_email_route caller (p_email p) role now st)
              = Inr \<lparr>ra_email = p_email p, ra_role = role, ra_user_exists = False\<rparr> \<and>
            google_login (Verified p) new_id now'
                (snd (set_role_by_email_route caller (p_email p) role now st))
              = (Inr \<lparr>u_id = new_id, u_email = p_email p, u_name = p_name p,
                      u_picture = p_picture p, u_google_id = Some (p_sub p),
                      u_role = role, u_last_login = now'\<rparr>,
                 (upsert_role (p_email p) role now st)\<lparr>users := users st @
                    [\<lparr>u_id = new_id, u_email = p_email p, u_name = p_name p,
                      u_picture = p_picture p, u_google_id = Some (p_sub p),
                      u_role = role, u_last_login = now'\<rparr>]\<rparr>)) \<and>
         (p_email p \<notin> set (map r_email (user_roles st)) \<longrightarrow>
            google_login (Verified p) new_id now' st
              = (Inr \<lparr>u_id = new_id, u_email = p_email p, u_name = p_name p,
                      u_picture = p_picture p, u_google_id = Some (p_sub p),
                      u_role = ''scholar'', u_last_login = now'\<rparr>,
                 st\<lparr>user_roles := user_roles st @
                      [\<lparr>r_email = p_email p, r_role = ''scholar'', r_updated_at = now'\<rparr>],
                    users := users st @
                      [\<lparr>u_id = new_id, u_email = p_email p, u_name = p_name p,
                        u_picture = p_picture p, u_google_id = Some (p_sub p),
                        u_role = ''scholar'', u_last_login = now'\<rparr>]\<rparr>))"
proof (intro conjI impI)
  assume a: "requireRole [''admin''] caller \<and> p_email p \<noteq> [] \<and> p_email p \<noteq> c_email caller \<and>
          role \<in> set valid_roles \<and> distinct (map r_email (user_roles st))"
  define st1 where "st1 = upsert_role (p_email p) role now st"
  from a upsert_role_single obtain rd where
    rd: "filter (\<lambda>x. r_email x = p_email p) (user_roles st1) = [rd]"
      "r_role rd = role" "r_email rd = p_email p"
    unfolding st1_def by blast
  have nou: "filter (\<lambda>u. u_email u = p_email p) (users st1) = []"
    using noid by (simp add: st1_def filter_absent_key)
  have nonempty: "role \<noteq> []" using a by (auto simp: valid_roles_def)
  have set: "set_role_by_email_route caller (p_email p) role now st
      = (Inr \<lparr>ra_email = p_email p, ra_role = role, ra_user_exists = False\<rparr>, st1)"
    using a nonempty rd nou
    by (simp add: set_role_by_email_route_def set_role_by_email_def Let_def st1_def [symmetric])
  show "fst (set_role_by_email_route caller (p_email p) role now st)
              = Inr \<lparr>ra_email = p_email p, ra_role = role, ra_user_exists = False\<rparr>"
    by (simp add: set)
  have us: "users st1 = users st" by (simp add: st1_def)
  show "google_login (Verified p) new_id now'
                (snd (set_role_by_email_route caller (p_email p) role now st))
              = (Inr \<lparr>u_id = new_id, u_email = p_email p, u_name = p_name p,
                      u_picture = p_picture p, u_google_id = Some (p_sub p),
                      u_role = role, u_last_login = now'\<rparr>,
                 (upsert_role (p_email p) role now st)\<lparr>users := users st @
                    [\<lparr>u_id = new_id, u_email = p_email p, u_name = p_name p,
                      u_picture = p_picture p, u_google_id = Some (p_sub p),
                      u_role = role, u_last_login = now'\<rparr>]\<rparr>)"
    unfolding set snd_conv st1_def [symmetric]
    using rd nou fresh gid noid
    by (simp add: google_login_def Let_def insert_user_def us)
next
  assume n: "p_email p \<notin> set (map r_email (user_roles st))"
  then have nr: "filter (\<lambda>r. r_email r = p_email p) (user_roles st) = []"
    by (rule filter_absent_key)
  have nou: "filter (\<lambda>u. u_email u = p_email p) (users st) = []"
    using noid by (rule filter_absent_key)
  show "google_login (Verified p) new_id now' st
              = (Inr \<lparr>u_id = new_id, u_email = p_email p, u_name = p_name p,
                      u_picture = p_picture p, u_google_id = Some (p_sub p),
                      u_role = ''scholar'', u_last_login = now'\<rparr>,
                 st\<lparr>user_roles := user_roles st @
                      [\<lparr>r_email = p_email p, r_role = ''scholar'', r_updated_at = now'\<rparr>],
                    users := users st @
                      [\<lparr>u_id = new_id, u_email = p_email p, u_name = p_name p,
                        u_picture = p_picture p, u_google_id = Some (p_sub p),
                        u_role = ''scholar'', u_last_login = now'\<rparr>]\<rparr>)"
    using n nr nou fresh gid noid
    by (simp add: google_login_def Let_def insert_user_def insert_role_def)
qed

theorem preassigned_role_round_trip_witness:
  "''u-new'' \<notin> set (map u_id (users ex_store)) \<and>
   \<not> google_id_taken (Some (p_sub ex_payload)) (users ex_store) \<and>
   p_email ex_payload \<notin> set (map u_email (users ex_store)) \<and>
   requireRole [''admin''] ex_admin \<and>
   p_email ex_payload \<noteq> [] \<and>
   p_email ex_payload \<noteq> c_email ex_admin \<and>
   ''faculty'' \<in> set valid_roles \<and>
   distinct (map r_email (user_roles ex_store)) \<and>
   p_email ex_payload \<notin> set (map r_email (user_roles ex_store)) \<and>
   map_sum id u_role (fst (google_login (Verified ex_payload) ''u-new'' 9
       (snd (set_role_by_email_route ex_admin (p_email ex_payload) ''faculty'' 5 ex_store))))
     = Inr ''faculty'' \<and>
   map_sum id u_role (fst (google_login (Verified ex_payload) ''u-new'' 9 ex_store))
     = Inr ''scholar''"
proof -
  have h1: "''u-new'' \<notin> set (map u_id (users ex_store))"
    by (simp add: ex_store_def ex_users_def)
  have h2: "\<not> google_id_taken (Some (p_sub ex_payload)) (users ex_store)"
    by (simp add: google_id_taken_def ex_store_def ex_users_def ex_payload_def)
  have h3: "p_email ex_payload \<notin> set (map u_email (users ex_store))"
    by (simp add: ex_store_def ex_users_def ex_payload_def)
  have a: "requireRole [''admin''] ex_admin" "p_email ex_payload \<noteq> []"
    "p_email ex_payload \<noteq> c_email ex_admin" "''faculty'' \<in> set valid_roles"
    "distinct (map r_email (user_roles ex_store))"
    by (simp_all add: requireRole_def ex_admin_def ex_payload_def valid_roles_def ex_store_def
        ex_roles_def)
  have n: "p_email ex_payload \<notin> set (map r_email (user_roles ex_store))"
    by (simp add: ex_store_def ex_roles_def ex_payload_def)
  note t = preassigned_role_round_trip [OF h1 h2 h3, of ex_admin "''faculty''" 5 9]
  from t a have 1: "map_sum id u_role (fst (google_login (Verified ex_payload) ''u-new'' 9
       (snd (set_role_by_email_route ex_admin (p_email ex_payload) ''faculty'' 5 ex_store))))
     = Inr ''faculty''" by simp
  from t n have 2: "map_sum id u_role (fst (google_login (Verified ex_payload) ''u-new'' 9 ex_store))
     = Inr ''scholar''" by simp
  from h1 h2 h3 a n 1 2 show ?thesis by blast
qed

subsection \<open>Role changes keep the two tables in agreement\<close>

lemma upsert_role_rows:
  assumes "r \<in> set (user_roles (upsert_role email role now st))"
  shows "(r_email r = email \<and> r_role r = role) \<or> (r_email r \<noteq> email \<and> r \<in> set (user_roles st))"
  using assms by (auto simp: upsert_role_def split: if_splits)

lemma upsert_role_has_row:
  "\<exists>r\<in>set (user_roles (upsert_role email role now st)). r_email r = email \<and> r_role r = role"
proof (cases "email \<in> set (map r_email (user_roles st))")
  case True
  then obtain x where "x \<in> set (user_roles st)" "r_email x = email" by auto
  then have "x\<lparr>r_role := role, r_updated_at := now\<rparr>
      \<in> set (user_roles (upsert_role email role now st))"
    and "r_email (x\<lparr>r_role := role, r_updated_at := now\<rparr>) = email"
    and "r_role (x\<lparr>r_role := role, r_updated_at := now\<rparr>) = role"
    using True by (force simp: upsert_role_def)+
  then show ?thesis by blast
next
  case False
  then show ?thesis by (simp add: upsert_role_def)
qed

lemma update_role_by_email_rows:
  assumes "u \<in> set (users (update_role_by_email email role st))"
  shows "(u_email u = email \<and> u_role u = role) \<or> (u_email u \<noteq> email \<and> u \<in> set (users st))"
  using assms by (auto simp: update_role_by_email_def split: if_splits)

lemma update_role_by_id_rows:
  assumes ids: "distinct (map u_id (users st))" and emails: "distinct (map u_email (users st))"
    and t: "t \<in> set (users st)" "u_id t = userId"
    and u: "u \<in> set (users (update_role_by_id userId role st))"
  shows "(u_email u = u_email t \<and> u_role u = role)
       \<or> (u_email u \<noteq> u_email t \<and> u \<in> set (users st))"
proof -
  from u obtain v where v: "v \<in> set (users st)"
    and uv: "u = (if u_id v = userId then v\<lparr>u_role := role\<rparr> else v)"
    by (auto simp: update_role_by_id_def)
  show ?thesis
  proof (cases "u_id v = userId")
    case True
    with ids t v have "v = t" by (metis distinct_map inj_onD)
    with uv True show ?thesis by simp
  next
    case False
    with t have "v \<noteq> t" by auto
    with emails t v have "u_email v \<noteq> u_email t" by (metis distinct_map inj_onD)
    with uv False v show ?thesis by simp
  qed
qed

lemma synced_after_writes:
  assumes old: "roles_synced st"
    and rs: "\<And>r. r \<in> set (user_roles st') \<Longrightarrow>
               (r_email r = e \<and> r_role r = role) \<or> (r_email r \<noteq> e \<and> r \<in> set (user_roles st))"
    and us: "\<And>u. u \<in> set (users st') \<Longrightarrow>
               (u_email u = e \<and> u_role u = role) \<or> (u_email u \<noteq> e \<and> u \<in> set (users st))"
  shows "roles_synced st'"
  unfolding roles_synced_def
proof (intro ballI impI)
  fix u r assume u: "u \<in> set (users st')" and r: "r \<in> set (user_roles st')"
    and eq: "u_email u = r_email r"
  show "u_role u = r_role r"
  proof (cases "u_email u = e")
    case True
    with us [OF u] rs [OF r] eq show ?thesis by auto
  next
    case False
    with us [OF u] rs [OF r] eq have "u \<in> set (users st)" "r \<in> set (user_roles st)" by auto
    with old eq show ?thesis by (auto simp: roles_synced_def)
  qed
qed

lemma patch_role_cases:
  assumes ids: "distinct (map u_id (users st))"
  shows "snd (patch_role caller userId role now st) = st \<and> isl (fst (patch_role caller userId role now st))
     \<or> (\<exists>t. t \<in> set (users st) \<and> uuid_canon userId = Some (u_id t) \<and>
           patch_role caller userId role now st
             = (Inr (t\<lparr>u_role := role\<rparr>),
                update_role_by_id (u_id t) role (upsert_role (u_email t) role now st)))"
proof (cases "role \<in> set valid_roles \<and> userId \<noteq> c_id caller")
  case False
  then show ?thesis by (auto simp: patch_role_def)
next
  case guards: True
  show ?thesis
  proof (cases "uuid_canon userId")
    case None
    with guards show ?thesis by (simp add: patch_role_def)
  next
    case (Some uid)
    show ?thesis
    proof (cases "uid \<in> set (map u_id (users st))")
      case False
      then have "filter (\<lambda>u. u_id u = uid) (users st) = []"
        by (rule filter_absent_key)
      with guards Some show ?thesis by (simp add: patch_role_def)
    next
      case True
      then obtain t where t: "t \<in> set (users st)" "u_id t = uid" by auto
      have f: "filter (\<lambda>u. u_id u = uid) (users st) = [t]"
        by (rule single_filter_unique [where key = u_id]) (use ids t in auto)
      let ?g = "\<lambda>u. if u_id u = uid then u\<lparr>u_role := role\<rparr> else u"
      have "filter (\<lambda>u. u_id u = uid) (map ?g (users st))
              = map ?g (filter (\<lambda>u. u_id u = uid) (users st))"
        by (simp add: filter_map comp_def if_distrib cong: if_cong)
      then have f2: "filter (\<lambda>u. u_id u = uid)
           (users (update_role_by_id uid role (upsert_role (u_email t) role now st)))
           = [t\<lparr>u_role := role\<rparr>]"
        using f t by (simp add: update_role_by_id_def)
      have "patch_role caller userId role now st
                 = (Inr (t\<lparr>u_role := role\<rparr>),
                    update_role_by_id uid role (upsert_role (u_email t) role now st))"
        using guards Some by (simp add: patch_role_def f Let_def f2)
      with t Some show ?thesis by blast
    qed
  qed
qed

lemma user_roles_update_role_by_id [simp]:
  "user_roles (update_role_by_id userId role st) = user_roles st"
  by (simp add: update_role_by_id_def)

lemma user_roles_update_role_by_email [simp]:
  "user_roles (update_role_by_email email role st) = user_roles st"
  by (simp add: update_role_by_email_def)

lemma patch_role_synced:
  assumes ids: "distinct (map u_id (users st))" and emails: "distinct (map u_email (users st))"
    and old: "roles_synced st"
  shows "roles_synced (snd (patch_role caller userId role now st))"
  using patch_role_cases [OF ids, of caller userId role now]
proof (elim disjE exE conjE)
  assume "snd (patch_role caller userId role now st) = st"
  with old show ?thesis by simp
next
  fix t assume t: "t \<in> set (users st)"
    and p: "patch_role caller userId role now st
             = (Inr (t\<lparr>u_role := role\<rparr>),
                update_role_by_id (u_id t) role (upsert_role (u_email t) role now st))"
  let ?st1 = "upsert_role (u_email t) role now st"
  have "roles_synced (update_role_by_id (u_id t) role ?st1)"
  proof (rule synced_after_writes [OF old, where e = "u_email t" and role = role])
    fix r assume "r \<in> set (user_roles (update_role_by_id (u_id t) role ?st1))"
    then show "(r_email r = u_email t \<and> r_role r = role)
        \<or> (r_email r \<noteq> u_email t \<and> r \<in> set (user_roles st))"
      using upsert_role_rows by simp
  next
    fix u assume "u \<in> set (users (update_role_by_id (u_id t) role ?st1))"
    then have "u \<in> set (users (update_role_by_id (u_id t) role st))"
      by (simp add: update_role_by_id_def)
    from update_role_by_id_rows [OF ids emails t refl this]
    show "(u_email u = u_email t \<and> u_role u = role)
        \<or> (u_email u \<noteq> u_email t \<and> u \<in> set (users st))" .
  qed
  with p show ?thesis by simp
qed

lemma set_role_by_email_synced:
  assumes emails: "distinct (map u_email (users st))"
    and remails: "distinct (map r_email (user_roles st))"
    and old: "roles_synced st"
  shows "roles_synced (snd (set_role_by_email caller email role now st))"
proof (cases "email = [] \<or> role = [] \<or> role \<notin> set valid_roles \<or> email = c_email caller")
  case True
  then have "snd (set_role_by_email caller email role now st) = st"
    by (auto simp: set_role_by_email_def)
  with old show ?thesis by simp
next
  case False
  define st1 where "st1 = upsert_role email role now st"
  obtain rd where rd: "filter (\<lambda>x. r_email x = email) (user_roles st1) = [rd]"
    using upsert_role_single [OF remails] unfolding st1_def by blast
  have rows1: "(r_email r = email \<and> r_role r = role) \<or> (r_email r \<noteq> email \<and> r \<in> set (user_roles st))"
    if "r \<in> set (user_roles st1)" for r
    using that upsert_role_rows unfolding st1_def by blast
  have us1: "users st1 = users st" by (simp add: st1_def)
  from filter_key_at_most_one [OF emails, of email]
  show ?thesis
  proof (elim disjE exE)
    assume none: "filter (\<lambda>x. u_email x = email) (users st) = []"
    then have r: "snd (set_role_by_email caller email role now st) = st1"
      using False rd by (simp add: set_role_by_email_def Let_def st1_def [symmetric] us1)
    have "roles_synced st1"
    proof (rule synced_after_writes [OF old, where e = email and role = role])
      fix r assume "r \<in> set (user_roles st1)"
      then show "(r_email r = email \<and> r_role r = role)
          \<or> (r_email r \<noteq> email \<and> r \<in> set (user_roles st))" by (rule rows1)
    next
      fix u assume "u \<in> set (users st1)"
      then have u: "u \<in> set (users st)" by (simp add: us1)
      with none have "u_email u \<noteq> email" by (auto simp: filter_empty_conv)
      with u show "(u_email u = email \<and> u_role u = role)
          \<or> (u_email u \<noteq> email \<and> u \<in> set (users st))" by simp
    qed
    with r show ?thesis by simp
  next
    fix x assume one: "filter (\<lambda>x. u_email x = email) (users st) = [x]"
    then have r: "snd (set_role_by_email caller email role now st)
        = update_role_by_email email role st1"
      using False rd by (simp add: set_role_by_email_def Let_def st1_def [symmetric] us1)
    have "roles_synced (update_role_by_email email role st1)"
    proof (rule synced_after_writes [OF old, where e = email and role = role])
      fix r assume "r \<in> set (user_roles (update_role_by_email email role st1))"
      then show "(r_email r = email \<and> r_role r = role)
          \<or> (r_email r \<noteq> email \<and> r \<in> set (user_roles st))" using rows1 by simp
    next
      fix u assume "u \<in> set (users (update_role_by_email email role st1))"
      from update_role_by_email_rows [OF this]
      show "(u_email u = email \<and> u_role u = role)
          \<or> (u_email u \<noteq> email \<and> u \<in> set (users st))" by (simp add: us1)
    qed
    with r show ?thesis by simp
  qed
qed

lemma set_role_by_email_cases:
  assumes emails: "distinct (map u_email (users st))"
    and remails: "distinct (map r_email (user_roles st))"
  shows "snd (set_role_by_email caller email role now st) = st
           \<and> isl (fst (set_role_by_email caller email role now st))
       \<or> (\<exists>b. set_role_by_email caller email role now st
             = (Inr \<lparr>ra_email = email, ra_role = role, ra_user_exists = b\<rparr>,
                if b then update_role_by_email email role (upsert_role email role now st)
                else upsert_role email role now st))"
proof (cases "email = [] \<or> role = [] \<or> role \<notin> set valid_roles \<or> email = c_email caller")
  case True
  then show ?thesis by (auto simp: set_role_by_email_def)
next
  case False
  define st1 where "st1 = upsert_role email role now st"
  obtain rd where rd: "filter (\<lambda>x. r_email x = email) (user_roles st1) = [rd]"
    "r_role rd = role" "r_email rd = email"
    using upsert_role_single [OF remails] unfolding st1_def by blast
  have us1: "users st1 = users st" by (simp add: st1_def)
  from filter_key_at_most_one [OF emails, of email]
  show ?thesis
  proof (elim disjE exE)
    assume "filter (\<lambda>x. u_email x = email) (users st) = []"
    then have "set_role_by_email caller email role now st
        = (Inr \<lparr>ra_email = email, ra_role = role, ra_user_exists = False\<rparr>, st1)"
      using False rd by (simp add: set_role_by_email_def Let_def st1_def [symmetric] us1)
    then show ?thesis unfolding st1_def by (intro disjI2 exI [where x = False]) simp
  next
    fix x assume "filter (\<lambda>x. u_email x = email) (users st) = [x]"
    then have "set_role_by_email caller email role now st
        = (Inr \<lparr>ra_email = email, ra_role = role, ra_user_exists = True\<rparr>,
           update_role_by_email email role st1)"
      using False rd by (simp add: set_role_by_email_def Let_def st1_def [symmetric] us1)
    then show ?thesis unfolding st1_def by (intro disjI2 exI [where x = True]) simp
  qed
qed

text \<open>
  C9. In a store that satisfies the schema's uniqueness constraints (user ids, user emails,
  role-assignment emails) and in which the two role tables agree, they still agree after a
  role change by id and after a role change by email, whatever the answer. A request
  answered with an error leaves the store as it was. After a successful change, the target
  email has a role assignment with the new role and every user row with that email carries
  the new role: the user row is written in the same request as the upsert. By id, the
  target is the row whose id the store reads from the text of the request.
\<close>

theorem role_mutation_keeps_roles_in_sync:
  assumes ids: "distinct (map u_id (users st))"
    and emails: "distinct (map u_email (users st))"
    and remails: "distinct (map r_email (user_roles st))"
    and old: "roles_synced st"
  shows "roles_synced (snd (patch_role_route caller userId role now st)) \<and>
         roles_synced (snd (set_role_by_email_route caller email role now st)) \<and>
         (case patch_role_route caller userId role now st of
            (Inl e, st') \<Rightarrow> st' = st
          | (Inr user, st') \<Rightarrow>
              uuid_canon userId = Some (u_id user) \<and> u_role user = role \<and> user \<in> set (users st') \<and>
              (\<exists>r\<in>set (user_roles st'). r_email r = u_email user \<and> r_role r = role)) \<and>
         (case set_role_by_email_route caller email role now st of
            (Inl e, st') \<Rightarrow> st' = st
          | (Inr a, st') \<Rightarrow>
              ra_email a = email \<and> ra_role a = role \<and>
              (\<exists>r\<in>set (user_roles st'). r_email r = email \<and> r_role r = role) \<and>
              (\<forall>u\<in>set (users st'). u_email u = email \<longrightarrow> u_role u = role))"
proof (intro conjI)
  show p: "roles_synced (snd (patch_role_route caller userId role now st))"
    using ids emails old by (simp add: patch_role_route_def patch_role_synced)
  show s: "roles_synced (snd (set_role_by_email_route caller email role now st))"
    using emails remails old by (simp add: set_role_by_email_route_def set_role_by_email_synced)
  show "case patch_role_route caller userId role now st of
            (Inl e, st') \<Rightarrow> st' = st
          | (Inr user, st') \<Rightarrow>
              uuid_canon userId = Some (u_id user) \<and> u_role user = role \<and> user \<in> set (users st') \<and>
              (\<exists>r\<in>set (user_roles st'). r_email r = u_email user \<and> r_role r = role)"
  proof (cases "requireRole [''admin''] caller")
    case False
    then show ?thesis by (simp add: patch_role_route_def)
  next
    case True
    from patch_role_cases [OF ids, of caller userId role now]
    show ?thesis
    proof (elim disjE exE conjE)
      assume "snd (patch_role caller userId role now st) = st"
        "isl (fst (patch_role caller userId role now st))"
      then show ?thesis using True
        by (cases "patch_role caller userId role now st")
          (auto simp: patch_role_route_def isl_def)
    next
      fix t assume t: "t \<in> set (users st)" "uuid_canon userId = Some (u_id t)"
        and r: "patch_role caller userId role now st
             = (Inr (t\<lparr>u_role := role\<rparr>),
                update_role_by_id (u_id t) role (upsert_role (u_email t) role now st))"
      have "t\<lparr>u_role := role\<rparr>
          \<in> set (users (update_role_by_id (u_id t) role (upsert_role (u_email t) role now st)))"
        using t by (force simp: update_role_by_id_def)
      with t r True upsert_role_has_row [of "u_email t" role now st]
      show ?thesis by (simp add: patch_role_route_def)
    qed
  qed
  show "case set_role_by_email_route caller email role now st of
            (Inl e, st') \<Rightarrow> st' = st
          | (Inr a, st') \<Rightarrow>
              ra_email a = email \<and> ra_role a = role \<and>
              (\<exists>r\<in>set (user_roles st'). r_email r = email \<and> r_role r = role) \<and>
              (\<forall>u\<in>set (users st'). u_email u = email \<longrightarrow> u_role u = role)"
  proof (cases "requireRole [''admin''] caller")
    case False
    then show ?thesis by (simp add: set_role_by_email_route_def)
  next
    case True
    from set_role_by_email_cases [OF emails remails, of caller email role now]
    show ?thesis
    proof (elim disjE exE conjE)
      assume "snd (set_role_by_email caller email role now st) = st"
        "isl (fst (set_role_by_email caller email role now st))"
      then show ?thesis using True
        by (cases "set_role_by_email caller email role now st")
          (auto simp: set_role_by_email_route_def isl_def)
    next
      fix b assume r: "set_role_by_email caller email role now st
             = (Inr \<lparr>ra_email = email, ra_role = role, ra_user_exists = b\<rparr>,
                if b then update_role_by_email email role (upsert_role email role now st)
                else upsert_role email role now st)"
      let ?st' = "if b then update_role_by_email email role (upsert_role email role now st)
                else upsert_role email role now st"
      have row: "\<exists>r\<in>set (user_roles ?st'). r_email r = email \<and> r_role r = role"
        using upsert_role_has_row [of email role now st] by simp
      have "roles_synced ?st'" using s r True by (simp add: set_role_by_email_route_def)
      with row have "\<forall>u\<in>set (users ?st'). u_email u = email \<longrightarrow> u_role u = role"
        unfolding roles_synced_def by metis
      with row r True show ?thesis by (simp add: set_role_by_email_route_def)
    qed
  qed
qed

theorem role_mutation_keeps_roles_in_sync_witness:
  "distinct (map u_id (users ex_uuid_store)) \<and>
   distinct (map u_email (users ex_uuid_store)) \<and>
   distinct (map r_email (user_roles ex_uuid_store)) \<and>
   roles_synced ex_uuid_store \<and>
   distinct (map u_id (users ex_store)) \<and>
   distinct (map u_email (users ex_store)) \<and>
   distinct (map r_email (user_roles ex_store)) \<and>
   roles_synced ex_store \<and>
   roles_synced (snd (patch_role_route ex_uuid_admin ''b1ffcd00-1d2e-4a3b-8c4d-5e6f708192a3''
       ''faculty'' 5 ex_uuid_store)) \<and>
   roles_synced (snd (set_role_by_email_route ex_admin ''sch2@x.com'' ''admin'' 5 ex_store)) \<and>
   map u_role (users (snd (patch_role_route ex_uuid_admin
       ''b1ffcd00-1d2e-4a3b-8c4d-5e6f708192a3'' ''faculty'' 5 ex_uuid_store)))
     = [''admin'', ''faculty''] \<and>
   map r_role (user_roles (snd (patch_role_route ex_uuid_admin
       ''b1ffcd00-1d2e-4a3b-8c4d-5e6f708192a3'' ''faculty'' 5 ex_uuid_store)))
     = [''admin'', ''faculty''] \<and>
   map u_role (users (snd (set_role_by_email_route ex_admin ''sch2@x.com'' ''admin'' 5 ex_store)))
     = [''admin'', ''faculty'', ''scholar'', ''admin''] \<and>
   map r_role (user_roles (snd (set_role_by_email_route ex_admin ''sch2@x.com'' ''admin'' 5 ex_store)))
     = [''admin'', ''faculty'', ''scholar'', ''admin'']"
proof -
  have hu: "distinct (map u_id (users ex_uuid_store))"
    "distinct (map u_email (users ex_uuid_store))"
    "distinct (map r_email (user_roles ex_uuid_store))"
    by (simp_all add: ex_uuid_store_def ex_uuid_users_def ex_uuid_roles_def)
  have su: "roles_synced ex_uuid_store"
    by (simp add: roles_synced_def ex_uuid_store_def ex_uuid_users_def ex_uuid_roles_def)
  have h: "distinct (map u_id (users ex_store))" "distinct (map u_email (users ex_store))"
    "distinct (map r_email (user_roles ex_store))"
    by (simp_all add: ex_store_def ex_users_def ex_roles_def)
  have s: "roles_synced ex_store"
    by (simp add: roles_synced_def ex_store_def ex_users_def ex_roles_def)
  have 1: "roles_synced (snd (patch_role_route ex_uuid_admin
       ''b1ffcd00-1d2e-4a3b-8c4d-5e6f708192a3'' ''faculty'' 5 ex_uuid_store))"
    using role_mutation_keeps_roles_in_sync [OF hu su, where caller = ex_uuid_admin
        and userId = "''b1ffcd00-1d2e-4a3b-8c4d-5e6f708192a3''" and role = "''faculty''" and now = 5]
    by blast
  have 2: "roles_synced (snd (set_role_by_email_route ex_admin ''sch2@x.com'' ''admin'' 5 ex_store))"
    using role_mutation_keeps_roles_in_sync [OF h s, where caller = ex_admin
        and email = "''sch2@x.com''" and role = "''admin''" and now = 5]
    by blast
  have c: "uuid_canon ''b1ffcd00-1d2e-4a3b-8c4d-5e6f708192a3''
      = Some ''b1ffcd00-1d2e-4a3b-8c4d-5e6f708192a3''"
    by (simp add: uuid_eval)
  have 3: "map u_role (users (snd (patch_role_route ex_uuid_admin
       ''b1ffcd00-1d2e-4a3b-8c4d-5e6f708192a3'' ''faculty'' 5 ex_uuid_store)))
     = [''admin'', ''faculty'']"
    "map r_role (user_roles (snd (patch_role_route ex_uuid_admin
       ''b1ffcd00-1d2e-4a3b-8c4d-5e6f708192a3'' ''faculty'' 5 ex_uuid_store)))
     = [''admin'', ''faculty'']"
    by (simp_all add: c patch_role_route_def patch_role_def requireRole_def valid_roles_def Let_def
        upsert_role_def update_role_by_id_def ex_uuid_admin_def ex_uuid_store_def
        ex_uuid_users_def ex_uuid_roles_def)
  have 4: "map u_role (users (snd (set_role_by_email_route ex_admin ''sch2@x.com'' ''admin'' 5 ex_store)))
     = [''admin'', ''faculty'', ''scholar'', ''admin'']"
    "map r_role (user_roles (snd (set_role_by_email_route ex_admin ''sch2@x.com'' ''admin'' 5 ex_store)))
     = [''admin'', ''faculty'', ''scholar'', ''admin'']"
    by (simp_all add: set_role_by_email_route_def set_role_by_email_def requireRole_def
        valid_roles_def Let_def upsert_role_def update_role_by_email_def ex_admin_def ex_store_def
        ex_users_def ex_roles_def)
  from hu su h s 1 2 3 4 show ?thesis by blast
qed

subsection \<open>Two bookings of one slot\<close>

text \<open>A request that runs alone through its three steps is the handler \<open>book\<close>.\<close>

lemma run_alone_is_book:
  "run_schedule [0, 0, 0] [r] [Start] st = ([Answered (fst (book r st))], snd (book r st))"
proof (cases "book_fetch (b_slotId r) st")
  case None
  then show ?thesis by (simp add: book_def)
next
  case (Some a)
  obtain slot faculty where a: "a = (slot, faculty)" by (cases a)
  show ?thesis
  proof (cases "book_update (c_id (b_caller r)) (b_slotId r) (b_notes r)
                  (createRealGoogleMeet (b_outcome r) (b_rnd r) faculty) st")
    case None
    with Some a show ?thesis by (simp add: book_def)
  next
    case (Some st1)
    with \<open>book_fetch (b_slotId r) st = Some a\<close> a show ?thesis by (simp add: book_def)
  qed
qed

text \<open>One after the other, bookings of a slot exclude each other: once a booking of a
  slot id has succeeded, every later booking of that id is answered
  \<open>SlotUnavailable\<close>.\<close>

lemma book_then_unavailable:
  assumes "book r st = (Inr bk, st')" and "b_slotId r' = b_slotId r"
  shows "book r' st' = (Inl SlotUnavailable, st')"
proof -
  from assms(1) obtain link where "book_update (c_id (b_caller r)) (b_slotId r) (b_notes r) link st = Some st'"
    by (auto simp: book_def Let_def split: option.splits prod.splits)
  then have "\<forall>s\<in>set (slots st'). s_id s = b_slotId r \<longrightarrow> s_status s = Booked"
    by (auto simp: book_update_def split: if_splits)
  then have "\<not> (\<exists>s\<in>set (slots st'). s_id s = b_slotId r' \<and> s_status s = Available)"
    using assms(2) by auto
  then have "filter (\<lambda>s. s_id s = b_slotId r' \<and> s_status s = Available) (slots st') = []"
    by (auto simp: filter_empty_conv)
  then show ?thesis by (simp add: book_def book_fetch_def)
qed

text \<open>
  C1 requires that of several concurrent booking requests for one \<open>Available\<close> slot
  exactly one succeeds and the others are answered \<open>SlotUnavailable\<close>. The handler
  filters on the status only when it fetches the slot; its update is keyed on the id
  alone. So when two requests both fetch before either updates, both succeed. Here the
  scholars \<^verbatim>\<open>u-sch\<close> and \<^verbatim>\<open>u-sch2\<close> book the slot \<^verbatim>\<open>s-free\<close>, which is available
  once in the table; the schedule lets the first fetch, the second fetch, the first update
  and answer, then the second update and answer. Both are answered with a booking, and the
  slot ends up with the second scholar, the first booking overwritten.
\<close>

theorem concurrent_bookings_both_succeed:
  "map s_status (filter (\<lambda>s. s_id s = ''s-free'') (slots ex_store_slots)) = [Available] \<and>
   map succeeded (fst (run_schedule [0, 1, 0, 0, 1, 1] [ex_book, ex_book2] [Start, Start]
       ex_store_slots)) = [True, True] \<and>
   map s_scholar_id (filter (\<lambda>s. s_id s = ''s-free'')
       (slots (snd (run_schedule [0, 1, 0, 0, 1, 1] [ex_book, ex_book2] [Start, Start]
          ex_store_slots)))) = [Some ''u-sch2'']"
  by (simp add: book_fetch_def book_update_def book_refetch_def
      createRealGoogleMeet_def generateFallbackMeetLink_def segment_length_def char_at_def
      chars_def lookup_user_def user_exists_def truthy_def segment_loop_3 Let_def
      segment_loop_4 ex_book_def ex_book2_def ex_slots_defs ex_scholar2_def ex_users_def)

end
